theory Spec2Isabelle
  imports Complex_Main "HOL-Library.Log_Nat"
begin

section \<open>TrenchyBet points listener: data model\<close>

text \<open>
  The repository holds two variants of one script: the polling listener
  (\<^verbatim>\<open>src/unnamed/part_000\<close>, with \<^verbatim>\<open>ensureUserExists\<close>, validated handlers and the block
  cursor) and the subscription listener (\<^verbatim>\<open>src/index.js\<close>). Definitions of the polling
  listener carry the source's names; those of \<^verbatim>\<open>index.js\<close> carry the suffix \<open>_idx\<close>.

  Modelling conventions.
  \<^item> A JavaScript \<^verbatim>\<open>bigint\<close> is an \<open>int\<close>. A JavaScript \<^verbatim>\<open>Number\<close> is the \<open>rat\<close> (or, when it
    is integral, the \<open>int\<close>) that the double denotes: \<^verbatim>\<open>Number(..)\<close> and the products of the
    points policy round to the nearest double (\<open>to_double\<close>). The sum \<^verbatim>\<open>total_points + points\<close>
    is taken exact, as it is for totals below \<open>2^53\<close>.
  \<^item> \<^verbatim>\<open>undefined\<close>/\<^verbatim>\<open>null\<close> is \<open>None\<close>; the truthiness tests of the source
    (\<^verbatim>\<open>!x\<close>, \<^verbatim>\<open>x || null\<close>, \<^verbatim>\<open>a && b\<close>) are written out, so \<^verbatim>\<open>0n\<close>, \<^verbatim>\<open>0\<close> and
    the empty string are falsy.
  \<^item> A thrown exception is a result \<open>Some e\<close> in the first component of the returned pair;
    \<open>None\<close> is a normal return. The second component is the store after the call.
  \<^item> Console output is not modelled.
\<close>

datatype pg_error = UniqueViolation \<comment> \<open>code 23505\<close> | OtherError

datatype js_error = PgError pg_error | TypeError | RpcError

datatype source = bet_volume | win_bonus

record metadata =
  md_betId :: "int option"
  md_marketId :: "int option"
  md_betAmount :: "rat option"
  md_payout :: "rat option"
  md_txHash :: "string option"

record ledger_row =
  wallet_address :: string
  points_earned :: int
  source :: source
  bet_id :: "int option"
  market_id :: "int option"
  metadata :: "metadata option"

record user_row =
  total_points :: int
  last_bet_timestamp :: nat

record log_args =
  marketId :: int
  user :: "string option"
  amount :: "int option"

record log =
  args :: "log_args option"
  transactionHash :: "string option"

subsection \<open>The persistent store\<close>

text \<open>
  Modelled from the spec: the two tables of the external store, whose schema is not in the
  sources (spec section 6): \<open>users(wallet_address PK, total_points, last_bet_timestamp)\<close> and
  \<open>points_ledger(id PK, wallet_address, points_earned, source, bet_id, market_id, metadata)\<close>.
  The \<open>users\<close> table is a map from its primary key. The ledger is the list of its rows in
  ascending order of the serial key \<open>id\<close>, so an insert appends and the row of greatest
  \<open>id\<close> is the last one; \<open>id\<close> is the only key of the ledger, so the table itself never
  rejects a row. The columns \<open>bet_id\<close> and \<open>market_id\<close> take \<^verbatim>\<open>null\<close>, as the insert of
  \<^verbatim>\<open>awardPoints\<close>, which writes \<^verbatim>\<open>metadata.marketId || null\<close>, presumes.

  Every call of the store client may fail for reasons of the infrastructure: \<open>faults\<close> is
  the schedule of these failures, one entry consumed per call (\<open>True\<close>: the call fails and
  has no effect; an empty schedule: no call fails). \<open>calls\<close> records the calls in the order
  they are made, each with whether it returned data or no error. \<open>now\<close> is the clock read
  by \<^verbatim>\<open>new Date()\<close>.
\<close>

datatype db_call =
    UsersSelect string
  | UsersInsert string int
  | UsersUpdate string int
  | LedgerInsert ledger_row
  | LedgerSelect string int

record world =
  users :: "string \<rightharpoonup> user_row"
  points_ledger :: "ledger_row list"
  faults :: "bool list"
  calls :: "(db_call \<times> bool) list"
  now :: nat

definition take_fault :: "world \<Rightarrow> bool \<times> world" where
  "take_fault w = (case faults w of [] \<Rightarrow> (False, w) | f # fs \<Rightarrow> (f, w\<lparr>faults := fs\<rparr>))"

definition log_call :: "db_call \<Rightarrow> bool \<Rightarrow> world \<Rightarrow> world" where
  "log_call c ok w = w\<lparr>calls := calls w @ [(c, ok)]\<rparr>"

text \<open>\<^verbatim>\<open>from('users').select(..).eq('wallet_address', a).single()\<close>: the row, or no data.\<close>

definition users_select :: "string \<Rightarrow> world \<Rightarrow> user_row option \<times> world" where
  "users_select a w =
     (case take_fault w of (f, w1) \<Rightarrow>
        if f then (None, log_call (UsersSelect a) False w1)
        else (users w1 a, log_call (UsersSelect a) (users w1 a \<noteq> None) w1))"

text \<open>\<^verbatim>\<open>from('users').insert(row)\<close>: the primary key rejects a second row of a wallet.\<close>

definition users_insert :: "string \<Rightarrow> user_row \<Rightarrow> world \<Rightarrow> pg_error option \<times> world" where
  "users_insert a r w =
     (case take_fault w of (f, w1) \<Rightarrow>
        if f then (Some OtherError, log_call (UsersInsert a (total_points r)) False w1)
        else if users w1 a \<noteq> None
          then (Some UniqueViolation, log_call (UsersInsert a (total_points r)) False w1)
        else (None, log_call (UsersInsert a (total_points r)) True (w1\<lparr>users := (users w1)(a \<mapsto> r)\<rparr>)))"

text \<open>\<^verbatim>\<open>from('users').update({total_points, last_bet_timestamp}).eq('wallet_address', a)\<close>.\<close>

definition users_update :: "string \<Rightarrow> int \<Rightarrow> nat \<Rightarrow> world \<Rightarrow> pg_error option \<times> world" where
  "users_update a t ts w =
     (case take_fault w of (f, w1) \<Rightarrow>
        if f then (Some OtherError, log_call (UsersUpdate a t) False w1)
        else (None, log_call (UsersUpdate a t) True
               (case users w1 a of
                  None \<Rightarrow> w1
                | Some r \<Rightarrow> w1\<lparr>users := (users w1)(a \<mapsto> r\<lparr>total_points := t, last_bet_timestamp := ts\<rparr>)\<rparr>)))"

text \<open>\<^verbatim>\<open>from('points_ledger').insert(row)\<close>.\<close>

definition ledger_insert :: "ledger_row \<Rightarrow> world \<Rightarrow> pg_error option \<times> world" where
  "ledger_insert r w =
     (case take_fault w of (f, w1) \<Rightarrow>
        if f then (Some OtherError, log_call (LedgerInsert r) False w1)
        else (None, log_call (LedgerInsert r) True (w1\<lparr>points_ledger := points_ledger w1 @ [r]\<rparr>)))"

definition bet_rows :: "string \<Rightarrow> int \<Rightarrow> ledger_row list \<Rightarrow> ledger_row list" where
  "bet_rows a m rs =
     filter (\<lambda>r. wallet_address r = a \<and> market_id r = Some m \<and> source r = bet_volume) rs"

text \<open>
  \<^verbatim>\<open>select('metadata').eq(wallet_address).eq(market_id).eq(source).order('id', desc).limit(1).single()\<close>:
  the metadata column of the matching row of greatest id, or no data.
\<close>

definition ledger_select_latest :: "string \<Rightarrow> int \<Rightarrow> world \<Rightarrow> metadata option option \<times> world" where
  "ledger_select_latest a m w =
     (case take_fault w of (f, w1) \<Rightarrow>
        if f then (None, log_call (LedgerSelect a m) False w1)
        else (case rev (bet_rows a m (points_ledger w1)) of
                [] \<Rightarrow> (None, log_call (LedgerSelect a m) False w1)
              | r # _ \<Rightarrow> (Some (metadata r), log_call (LedgerSelect a m) True w1)))"

text \<open>
  The same query without \<^verbatim>\<open>order\<close> and \<^verbatim>\<open>limit\<close> (\<^verbatim>\<open>index.js\<close>): \<^verbatim>\<open>single()\<close> returns
  data only when exactly one row matches.
\<close>

definition ledger_select_single :: "string \<Rightarrow> int \<Rightarrow> world \<Rightarrow> metadata option option \<times> world" where
  "ledger_select_single a m w =
     (case take_fault w of (f, w1) \<Rightarrow>
        if f then (None, log_call (LedgerSelect a m) False w1)
        else (case bet_rows a m (points_ledger w1) of
                [r] \<Rightarrow> (Some (metadata r), log_call (LedgerSelect a m) True w1)
              | _ \<Rightarrow> (None, log_call (LedgerSelect a m) False w1)))"

subsection \<open>Helpers of the language and of viem\<close>

definition lower_char :: "char \<Rightarrow> char" where
  "lower_char c =
     (let n = (of_char c :: nat) in if 65 \<le> n \<and> n \<le> 90 then char_of (n + 32) else c)"

text \<open>\<^verbatim>\<open>String.prototype.toLowerCase\<close> on the ASCII letters of an address.\<close>

definition toLowerCase :: "string \<Rightarrow> string" where
  "toLowerCase s = map lower_char s"

text \<open>
  IEEE-754 binary64, round to nearest, ties to even. \<open>rne\<close> rounds to the nearest integer,
  \<open>expo x\<close> is the exponent \<open>\<lfloor>log\<^sub>2 x\<rfloor>\<close> of a positive \<open>x\<close>, and \<open>to_double x\<close> is the
  nearest multiple of \<open>2 ^ (expo \<bar>x\<bar> - 52)\<close>, that is the nearest number with a significand of
  53 bits. The range of the exponent is not bounded (no \<^verbatim>\<open>Infinity\<close>, no subnormal numbers),
  which is exact for magnitudes from \<open>2^-1022\<close> up to \<open>2^1024\<close>: every \<^verbatim>\<open>uint256\<close> amount,
  its quotient by \<open>10^6\<close> and the products of the points policy lie there.
\<close>

definition rne :: "rat \<Rightarrow> int" where
  "rne t = (let f = \<lfloor>t\<rfloor>; d = t - of_int f in
            if d < 1 / 2 then f else if 1 / 2 < d then f + 1 else if even f then f else f + 1)"

definition expo :: "rat \<Rightarrow> int" where
  "expo x = (if 1 \<le> x then bitlen \<lfloor>x\<rfloor> - 1 else - bitlen (\<lceil>1 / x\<rceil> - 1))"

definition to_double :: "rat \<Rightarrow> rat" where
  "to_double x = (if x = 0 then 0
           else (let s = 2 powi (expo \<bar>x\<bar> - 52) in sgn x * of_int (rne (\<bar>x\<bar> / s)) * s))"

text \<open>The product \<^verbatim>\<open>a * b\<close> of two Numbers.\<close>

definition times_double :: "rat \<Rightarrow> rat \<Rightarrow> rat" where
  "times_double a b = to_double (a * b)"

text \<open>
  \<^verbatim>\<open>Number(formatUnits(v, 6))\<close>: \<^verbatim>\<open>formatUnits\<close> writes the exact decimal \<open>v / 10^6\<close>, and
  \<^verbatim>\<open>Number\<close> reads it as the nearest double.
\<close>

definition formatUnits6 :: "int \<Rightarrow> rat" where
  "formatUnits6 v = to_double (of_int v / 10 ^ 6)"

text \<open>\<^verbatim>\<open>Number(marketId)\<close> of a \<^verbatim>\<open>bigint\<close>: the nearest double, which is integral.\<close>

definition Number_bigint :: "int \<Rightarrow> int" where
  "Number_bigint m = \<lfloor>to_double (of_int m)\<rfloor>"

text \<open>\<^verbatim>\<open>x || null\<close> on a number column: \<^verbatim>\<open>undefined\<close> and \<^verbatim>\<open>0\<close> both give \<^verbatim>\<open>null\<close>.\<close>

definition or_null :: "int option \<Rightarrow> int option" where
  "or_null x = (case x of None \<Rightarrow> None | Some n \<Rightarrow> if n = 0 then None else Some n)"

definition POINTS_PER_DOLLAR :: rat where
  "POINTS_PER_DOLLAR = 10"

definition WIN_MULTIPLIER :: rat where
  "WIN_MULTIPLIER = 5"

text \<open>\<^verbatim>\<open>try { body } catch (error) { console.error(..) }\<close>: the exception ends there.\<close>

definition try_catch :: "js_error option \<times> world \<Rightarrow> js_error option \<times> world" where
  "try_catch r = (None, snd r)"

section \<open>The polling listener\<close>

definition ensureUserExists :: "string \<Rightarrow> world \<Rightarrow> js_error option \<times> world" where
  "ensureUserExists wallet w =
     (let address = toLowerCase wallet in
      case users_select address w of (existingUser, w1) \<Rightarrow>
        if existingUser \<noteq> None then (None, w1)
        else (case users_insert address \<lparr>total_points = 0, last_bet_timestamp = now w1\<rparr> w1 of
                (error, w2) \<Rightarrow>
                  (case error of
                     None \<Rightarrow> (None, w2)
                   | Some e \<Rightarrow> if e \<noteq> UniqueViolation then (Some (PgError e), w2) else (None, w2))))"

definition ledger_entry :: "string \<Rightarrow> int \<Rightarrow> source \<Rightarrow> metadata \<Rightarrow> ledger_row" where
  "ledger_entry address points src md =
     \<lparr>wallet_address = address, points_earned = points, source = src,
      bet_id = or_null (md_betId md), market_id = or_null (md_marketId md),
      metadata = Some md\<rparr>"

definition awardPoints_body ::
  "string option \<Rightarrow> int \<Rightarrow> source \<Rightarrow> metadata \<Rightarrow> world \<Rightarrow> js_error option \<times> world" where
  "awardPoints_body wallet points src md w =
     (case wallet of
        None \<Rightarrow> (Some TypeError, w)
      | Some wl \<Rightarrow>
          (let address = toLowerCase wl in
           case ensureUserExists address w of
             (Some e, w1) \<Rightarrow> (Some e, w1)
           | (None, w1) \<Rightarrow>
               (case ledger_insert (ledger_entry address points src md) w1 of
                  (Some ledgerError, w2) \<Rightarrow> (None, w2)
                | (None, w2) \<Rightarrow>
                    (case users_select address w2 of
                       (None, w3) \<Rightarrow> (None, w3)
                     | (Some u, w3) \<Rightarrow>
                         (None, snd (users_update address (total_points u + points) (now w3) w3))))))"

definition awardPoints ::
  "string option \<Rightarrow> int \<Rightarrow> source \<Rightarrow> metadata \<Rightarrow> world \<Rightarrow> js_error option \<times> world" where
  "awardPoints wallet points src md w = try_catch (awardPoints_body wallet points src md w)"

text \<open>The guard \<^verbatim>\<open>!log.args || !log.args.user || !log.args.amount\<close>, negated.\<close>

definition valid_args :: "log \<Rightarrow> bool" where
  "valid_args l =
     (case args l of
        None \<Rightarrow> False
      | Some a \<Rightarrow>
          (case user a of None \<Rightarrow> False | Some u \<Rightarrow> u \<noteq> []) \<and>
          (case amount a of None \<Rightarrow> False | Some v \<Rightarrow> v \<noteq> 0))"

definition handleBetPlaced_body :: "log \<Rightarrow> world \<Rightarrow> js_error option \<times> world" where
  "handleBetPlaced_body l w =
     (if \<not> valid_args l then (None, w)
      else case args l of
        None \<Rightarrow> (None, w)
      | Some a \<Rightarrow>
          (case amount a of
             None \<Rightarrow> (None, w)
           | Some v \<Rightarrow>
               (let usdcAmount = formatUnits6 v;
                    basePoints = \<lfloor>times_double usdcAmount POINTS_PER_DOLLAR\<rfloor>
                in awardPoints (user a) basePoints bet_volume
                     \<lparr>md_betId = None, md_marketId = Some (Number_bigint (marketId a)),
                      md_betAmount = Some usdcAmount, md_payout = None,
                      md_txHash = transactionHash l\<rparr> w)))"

definition handleBetPlaced :: "log \<Rightarrow> world \<Rightarrow> js_error option \<times> world" where
  "handleBetPlaced l w = try_catch (handleBetPlaced_body l w)"

text \<open>
  \<^verbatim>\<open>betRecord.metadata.betAmount\<close> is the number of the JSON column read as a Number, and
  \<^verbatim>\<open>originalBet * POINTS_PER_DOLLAR * WIN_MULTIPLIER\<close> is two products, each rounded.
\<close>

definition handleWinningsClaimed_body :: "log \<Rightarrow> world \<Rightarrow> js_error option \<times> world" where
  "handleWinningsClaimed_body l w =
     (if \<not> valid_args l then (None, w)
      else case args l of
        None \<Rightarrow> (None, w)
      | Some a \<Rightarrow>
          (case (user a, amount a) of
             (Some u, Some payout) \<Rightarrow>
               if payout = 0 then (None, w)
               else (case ledger_select_latest (toLowerCase u) (Number_bigint (marketId a)) w of
                       (Some (Some md), w1) \<Rightarrow>
                         (case md_betAmount md of
                            None \<Rightarrow> (None, w1)
                          | Some betAmount \<Rightarrow>
                              (let originalBet = to_double betAmount in
                               if originalBet = 0 then (None, w1)
                               else (let winBonus =
                                       \<lfloor>times_double (times_double originalBet POINTS_PER_DOLLAR)
                                          WIN_MULTIPLIER\<rfloor>
                                     in awardPoints (Some u) winBonus win_bonus
                                          \<lparr>md_betId = None,
                                           md_marketId = Some (Number_bigint (marketId a)),
                                           md_betAmount = None,
                                           md_payout = Some (formatUnits6 payout),
                                           md_txHash = transactionHash l\<rparr> w1)))
                     | (_, w1) \<Rightarrow> (None, w1))
           | _ \<Rightarrow> (None, w)))"

definition handleWinningsClaimed :: "log \<Rightarrow> world \<Rightarrow> js_error option \<times> world" where
  "handleWinningsClaimed l w = try_catch (handleWinningsClaimed_body l w)"

text \<open>\<^verbatim>\<open>for (const log of logs) { await handler(log); }\<close>: a throw leaves the loop.\<close>

fun for_each ::
  "(log \<Rightarrow> world \<Rightarrow> js_error option \<times> world) \<Rightarrow> log list \<Rightarrow> world \<Rightarrow> js_error option \<times> world" where
  "for_each h [] w = (None, w)"
| "for_each h (l # ls) w =
     (case h l w of (Some e, w1) \<Rightarrow> (Some e, w1) | (None, w1) \<Rightarrow> for_each h ls w1)"

text \<open>
  The event source is external: one tick sees the answers of \<^verbatim>\<open>getBlockNumber\<close> and of
  the two \<^verbatim>\<open>getLogs\<close> queries (as functions of \<^verbatim>\<open>fromBlock\<close> and \<^verbatim>\<open>toBlock\<close>), each
  of which may throw.
\<close>

record rpc =
  getBlockNumber :: "js_error + int"
  getLogs_BetPlaced :: "int \<Rightarrow> int \<Rightarrow> js_error + log list"
  getLogs_WinningsClaimed :: "int \<Rightarrow> int \<Rightarrow> js_error + log list"

record listener =
  lastProcessedBlock :: int
  db :: world

text \<open>
  The body of the \<^verbatim>\<open>setInterval\<close> callback of \<^verbatim>\<open>startListener\<close>, for given handlers.
  One call is one tick; ticks are taken one after another.
\<close>

definition tick_with ::
  "(log \<Rightarrow> world \<Rightarrow> js_error option \<times> world) \<Rightarrow> (log \<Rightarrow> world \<Rightarrow> js_error option \<times> world) \<Rightarrow>
   rpc \<Rightarrow> listener \<Rightarrow> listener" where
  "tick_with onBet onWin node s =
     (case getBlockNumber node of
        Inl e \<Rightarrow> s
      | Inr currentBlock \<Rightarrow>
          if currentBlock \<le> lastProcessedBlock s then s
          else (case getLogs_BetPlaced node (lastProcessedBlock s + 1) currentBlock of
                  Inl e \<Rightarrow> s
                | Inr betLogs \<Rightarrow>
                    (case getLogs_WinningsClaimed node (lastProcessedBlock s + 1) currentBlock of
                       Inl e \<Rightarrow> s
                     | Inr winLogs \<Rightarrow>
                         (case for_each onBet betLogs (db s) of
                            (Some e, w1) \<Rightarrow> s\<lparr>db := w1\<rparr>
                          | (None, w1) \<Rightarrow>
                              (case for_each onWin winLogs w1 of
                                 (Some e, w2) \<Rightarrow> s\<lparr>db := w2\<rparr>
                               | (None, w2) \<Rightarrow> \<lparr>lastProcessedBlock = currentBlock, db = w2\<rparr>)))))"

definition tick :: "rpc \<Rightarrow> listener \<Rightarrow> listener" where
  "tick = tick_with handleBetPlaced handleWinningsClaimed"

text \<open>Ticks taken one after another, each with the answers the node gives at its time.\<close>

definition ticks :: "rpc list \<Rightarrow> listener \<Rightarrow> listener" where
  "ticks nodes s = foldl (\<lambda>s node. tick node s) s nodes"

text \<open>
  Nothing in \<^verbatim>\<open>startListener\<close> keeps a callback of \<^verbatim>\<open>setInterval\<close> from starting while
  an earlier one waits at an \<^verbatim>\<open>await\<close>. For such runs the callback is taken in its two
  parts: the three queries, which read the cursor, and the two loops followed by the
  assignment \<^verbatim>\<open>lastProcessedBlock = currentBlock\<close>, which works on the answers of the queries
  and on the store and the cursor as they are by then.
\<close>

record scan =
  sc_currentBlock :: int
  sc_betLogs :: "log list"
  sc_winLogs :: "log list"

definition scan_window :: "rpc \<Rightarrow> listener \<Rightarrow> scan option" where
  "scan_window node s =
     (case getBlockNumber node of
        Inl e \<Rightarrow> None
      | Inr currentBlock \<Rightarrow>
          if currentBlock \<le> lastProcessedBlock s then None
          else (case getLogs_BetPlaced node (lastProcessedBlock s + 1) currentBlock of
                  Inl e \<Rightarrow> None
                | Inr betLogs \<Rightarrow>
                    (case getLogs_WinningsClaimed node (lastProcessedBlock s + 1) currentBlock of
                       Inl e \<Rightarrow> None
                     | Inr winLogs \<Rightarrow>
                         Some \<lparr>sc_currentBlock = currentBlock, sc_betLogs = betLogs,
                               sc_winLogs = winLogs\<rparr>)))"

definition process_scan :: "scan \<Rightarrow> listener \<Rightarrow> listener" where
  "process_scan sc s =
     (case for_each handleBetPlaced (sc_betLogs sc) (db s) of
        (Some e, w1) \<Rightarrow> s\<lparr>db := w1\<rparr>
      | (None, w1) \<Rightarrow>
          (case for_each handleWinningsClaimed (sc_winLogs sc) w1 of
             (Some e, w2) \<Rightarrow> s\<lparr>db := w2\<rparr>
           | (None, w2) \<Rightarrow> \<lparr>lastProcessedBlock = sc_currentBlock sc, db = w2\<rparr>))"

section \<open>The subscription listener (index.js)\<close>

definition awardPoints_body_idx ::
  "string option \<Rightarrow> int \<Rightarrow> source \<Rightarrow> metadata \<Rightarrow> world \<Rightarrow> js_error option \<times> world" where
  "awardPoints_body_idx wallet points src md w =
     (case wallet of
        None \<Rightarrow> (Some TypeError, w)
      | Some wl \<Rightarrow>
          (case ledger_insert (ledger_entry (toLowerCase wl) points src md) w of
             (Some ledgerError, w1) \<Rightarrow> (Some (PgError ledgerError), w1)
           | (None, w1) \<Rightarrow>
               (case users_select (toLowerCase wl) w1 of
                  (Some u, w2) \<Rightarrow>
                    (None, snd (users_update (toLowerCase wl) (total_points u + points) (now w2) w2))
                | (None, w2) \<Rightarrow>
                    (None, snd (users_insert (toLowerCase wl)
                                  \<lparr>total_points = points, last_bet_timestamp = now w2\<rparr> w2)))))"

definition awardPoints_idx ::
  "string option \<Rightarrow> int \<Rightarrow> source \<Rightarrow> metadata \<Rightarrow> world \<Rightarrow> js_error option \<times> world" where
  "awardPoints_idx wallet points src md w = try_catch (awardPoints_body_idx wallet points src md w)"

definition handleBetPlaced_idx :: "log \<Rightarrow> world \<Rightarrow> js_error option \<times> world" where
  "handleBetPlaced_idx l w =
     (case args l of
        None \<Rightarrow> (Some TypeError, w)
      | Some a \<Rightarrow>
          (case amount a of
             None \<Rightarrow> (Some TypeError, w)
           | Some v \<Rightarrow>
               (let usdcAmount = formatUnits6 v;
                    basePoints = \<lfloor>times_double usdcAmount POINTS_PER_DOLLAR\<rfloor>
                in awardPoints_idx (user a) basePoints bet_volume
                     \<lparr>md_betId = None, md_marketId = Some (Number_bigint (marketId a)),
                      md_betAmount = Some usdcAmount, md_payout = None,
                      md_txHash = None\<rparr> w)))"

definition handleWinningsClaimed_idx :: "log \<Rightarrow> world \<Rightarrow> js_error option \<times> world" where
  "handleWinningsClaimed_idx l w =
     (case args l of
        None \<Rightarrow> (Some TypeError, w)
      | Some a \<Rightarrow>
          (case user a of
             None \<Rightarrow> (Some TypeError, w)
           | Some u \<Rightarrow>
               (case ledger_select_single (toLowerCase u) (Number_bigint (marketId a)) w of
                  (None, w1) \<Rightarrow> (None, w1)
                | (Some None, w1) \<Rightarrow> (Some TypeError, w1)
                | (Some (Some md), w1) \<Rightarrow>
                    (case md_betAmount md of
                       None \<Rightarrow> (None, w1)
                     | Some betAmount \<Rightarrow>
                         (let originalBet = to_double betAmount in
                          if originalBet = 0 then (None, w1)
                          else (let winBonus =
                                  \<lfloor>times_double (times_double originalBet POINTS_PER_DOLLAR)
                                     WIN_MULTIPLIER\<rfloor>
                                in case amount a of
                                     None \<Rightarrow> (Some TypeError, w1)
                                   | Some payout \<Rightarrow>
                                       awardPoints_idx (Some u) winBonus win_bonus
                                         \<lparr>md_betId = None,
                                          md_marketId = Some (Number_bigint (marketId a)),
                                          md_betAmount = None,
                                          md_payout = Some (formatUnits6 payout),
                                          md_txHash = None\<rparr> w1))))))"

section \<open>Observations\<close>

text \<open>The total of a wallet (0 without a users row) and the sum of the points of its ledger rows.\<close>

definition total_of :: "world \<Rightarrow> string \<Rightarrow> int" where
  "total_of w a = (case users w a of None \<Rightarrow> 0 | Some r \<Rightarrow> total_points r)"


text \<open>One pass over the logs of a window: the two loops of a tick.\<close>

definition process_window :: "log list \<Rightarrow> log list \<Rightarrow> world \<Rightarrow> world" where
  "process_window betLogs winLogs w =
     snd (for_each handleWinningsClaimed winLogs (snd (for_each handleBetPlaced betLogs w)))"

text \<open>Empty tables, no failing call.\<close>

definition empty_world :: world where
  "empty_world = \<lparr>users = Map.empty, points_ledger = [], faults = [], calls = [], now = 0\<rparr>"

text \<open>The guard of the handlers fails because a field is absent.\<close>

definition missing_field :: "log \<Rightarrow> bool" where
  "missing_field l = (case args l of None \<Rightarrow> True | Some a \<Rightarrow> user a = None \<or> amount a = None)"

text \<open>The source and the points of every row of the ledger, in order.\<close>

definition sources_and_points :: "world \<Rightarrow> (source \<times> int) list" where
  "sources_and_points w = map (\<lambda>r. (source r, points_earned r)) (points_ledger w)"

text \<open>The metadata object that \<^verbatim>\<open>handleBetPlaced\<close> passes to \<^verbatim>\<open>awardPoints\<close>.\<close>

definition bet_metadata :: "log \<Rightarrow> log_args \<Rightarrow> int \<Rightarrow> metadata" where
  "bet_metadata l a v = \<lparr>md_betId = None, md_marketId = Some (Number_bigint (marketId a)),
     md_betAmount = Some (formatUnits6 v), md_payout = None, md_txHash = transactionHash l\<rparr>"

text \<open>The metadata object that \<^verbatim>\<open>handleWinningsClaimed\<close> passes to \<^verbatim>\<open>awardPoints\<close>.\<close>

definition win_metadata :: "log \<Rightarrow> log_args \<Rightarrow> int \<Rightarrow> metadata" where
  "win_metadata l a payout = \<lparr>md_betId = None, md_marketId = Some (Number_bigint (marketId a)),
     md_betAmount = None, md_payout = Some (formatUnits6 payout), md_txHash = transactionHash l\<rparr>"

text \<open>
  The points of the policy as the code computes them: \<^verbatim>\<open>Math.floor(usdcAmount * 10)\<close> for a
  bet of raw amount \<open>v\<close>, \<^verbatim>\<open>Math.floor(originalBet * 10 * 5)\<close> for a win whose bet amount is
  read from the ledger as \<open>b\<close>.
\<close>

definition bet_points :: "int \<Rightarrow> int" where
  "bet_points v = \<lfloor>times_double (formatUnits6 v) POINTS_PER_DOLLAR\<rfloor>"

definition win_points :: "rat \<Rightarrow> int" where
  "win_points b =
     \<lfloor>times_double (times_double (to_double b) POINTS_PER_DOLLAR) WIN_MULTIPLIER\<rfloor>"

text \<open>A processed event is a log together with the handler its signature selects.\<close>

datatype event = BetPlaced log | WinningsClaimed log

fun handle_event :: "event \<Rightarrow> world \<Rightarrow> world" where
  "handle_event (BetPlaced l) w = snd (handleBetPlaced l w)"
| "handle_event (WinningsClaimed l) w = snd (handleWinningsClaimed l w)"

fun handle_event_idx :: "event \<Rightarrow> world \<Rightarrow> world" where
  "handle_event_idx (BetPlaced l) w = snd (handleBetPlaced_idx l w)"
| "handle_event_idx (WinningsClaimed l) w = snd (handleWinningsClaimed_idx l w)"

definition run_events :: "event list \<Rightarrow> world \<Rightarrow> world" where
  "run_events evs w = foldl (\<lambda>w e. handle_event e w) w evs"

definition run_events_idx :: "event list \<Rightarrow> world \<Rightarrow> world" where
  "run_events_idx evs w = foldl (\<lambda>w e. handle_event_idx e w) w evs"

text \<open>Kinds of calls of the store: the writes of a total.\<close>

definition is_update :: "db_call \<Rightarrow> bool" where
  "is_update c = (case c of UsersUpdate a t \<Rightarrow> True | _ \<Rightarrow> False)"

definition is_users_write :: "db_call \<Rightarrow> bool" where
  "is_users_write c = (case c of UsersUpdate a t \<Rightarrow> True | UsersInsert a t \<Rightarrow> True | _ \<Rightarrow> False)"

text \<open>
  The calls a \<open>BetPlaced\<close> log may cause (no ledger lookup, no \<open>win_bonus\<close> row) and those a
  \<open>WinningsClaimed\<close> log may cause (no \<open>bet_volume\<close> row).
\<close>

definition bet_phase_call :: "db_call \<Rightarrow> bool" where
  "bet_phase_call c =
     (case c of LedgerSelect a m \<Rightarrow> False | LedgerInsert r \<Rightarrow> source r = bet_volume | _ \<Rightarrow> True)"

definition win_phase_call :: "db_call \<Rightarrow> bool" where
  "win_phase_call c = (case c of LedgerInsert r \<Rightarrow> source r = win_bonus | _ \<Rightarrow> True)"

section \<open>Scenarios\<close>

text \<open>The scenario of the spec: a bet of 12.50 USDC and its win of 25.00 USDC, seen by one tick.\<close>

definition example_bet :: log where
  "example_bet = \<lparr>args = Some \<lparr>marketId = 1, user = Some ''0xAbC'', amount = Some 12500000\<rparr>,
                  transactionHash = Some ''0x01''\<rparr>"

definition example_win :: log where
  "example_win = \<lparr>args = Some \<lparr>marketId = 1, user = Some ''0xabc'', amount = Some 25000000\<rparr>,
                  transactionHash = Some ''0x02''\<rparr>"

definition example_node :: rpc where
  "example_node = \<lparr>getBlockNumber = Inr 7, getLogs_BetPlaced = (\<lambda>f t. Inr [example_bet]),
                    getLogs_WinningsClaimed = (\<lambda>f t. Inr [example_win])\<rparr>"

definition example_listener :: listener where
  "example_listener = \<lparr>lastProcessedBlock = 5, db = empty_world\<rparr>"

text \<open>
  The same chain as a function of its head: the bet is in block 6 and its win in block 7.
\<close>

definition example_chain :: "int \<Rightarrow> rpc" where
  "example_chain head =
     \<lparr>getBlockNumber = Inr head,
      getLogs_BetPlaced = (\<lambda>f t. Inr (if f \<le> 6 \<and> 6 \<le> t then [example_bet] else [])),
      getLogs_WinningsClaimed = (\<lambda>f t. Inr (if f \<le> 7 \<and> 7 \<le> t then [example_win] else []))\<rparr>"

text \<open>A node that does not answer.\<close>

definition example_node_down :: rpc where
  "example_node_down =
     \<lparr>getBlockNumber = Inl RpcError, getLogs_BetPlaced = (\<lambda>f t. Inl RpcError),
      getLogs_WinningsClaimed = (\<lambda>f t. Inl RpcError)\<rparr>"

text \<open>A node whose second query of the logs fails.\<close>

definition example_node_flaky :: rpc where
  "example_node_flaky = (example_chain 7)\<lparr>getLogs_WinningsClaimed := (\<lambda>f t. Inl RpcError)\<rparr>"

text \<open>The metadata of the example bet.\<close>

definition example_md :: metadata where
  "example_md = \<lparr>md_betId = None, md_marketId = Some 1, md_betAmount = Some (25 / 2),
                  md_payout = None, md_txHash = Some ''0x01''\<rparr>"


text \<open>A log without \<open>user\<close>.\<close>

definition example_malformed :: log where
  "example_malformed = \<lparr>args = Some \<lparr>marketId = 1, user = None, amount = Some 12500000\<rparr>,
                        transactionHash = Some ''0x03''\<rparr>"

text \<open>A claim whose payout is zero, on the market of the example bet.\<close>

definition example_zero_payout :: log where
  "example_zero_payout = \<lparr>args = Some \<lparr>marketId = 1, user = Some ''0xabc'', amount = Some 0\<rparr>,
                          transactionHash = Some ''0x04''\<rparr>"

text \<open>The scenario of the spec on the market whose id is 0.\<close>

definition example_bet_market0 :: log where
  "example_bet_market0 = \<lparr>args = Some \<lparr>marketId = 0, user = Some ''0xAbC'', amount = Some 12500000\<rparr>,
                          transactionHash = Some ''0x05''\<rparr>"

definition example_win_market0 :: log where
  "example_win_market0 = \<lparr>args = Some \<lparr>marketId = 0, user = Some ''0xabc'', amount = Some 25000000\<rparr>,
                          transactionHash = Some ''0x06''\<rparr>"

text \<open>A store whose third call (the ledger insert of the first award) fails.\<close>

definition failing_ledger_world :: world where
  "failing_ledger_world = empty_world\<lparr>faults := [False, False, True]\<rparr>"


section \<open>Devices of the proofs\<close>

text \<open>The points a list of ledger rows gives to a wallet.\<close>

definition credit :: "string \<Rightarrow> ledger_row list \<Rightarrow> int" where
  "credit x rs = sum_list (map points_earned (filter (\<lambda>r. wallet_address r = x) rs))"

text \<open>The row the lookup of \<^verbatim>\<open>handleWinningsClaimed\<close> returns when the call succeeds.\<close>

definition latest_bet :: "string \<Rightarrow> int \<Rightarrow> ledger_row list \<Rightarrow> ledger_row option" where
  "latest_bet a m rs = (case rev (bet_rows a m rs) of [] \<Rightarrow> None | r # _ \<Rightarrow> Some r)"

text \<open>
  The ledger rows that the handlers of the polling listener add when the calls of the store
  succeed, as functions of the log (and, for a win, of the ledger it is looked up in).
\<close>

definition bet_entries :: "log \<Rightarrow> ledger_row list" where
  "bet_entries l =
     (case args l of
        None \<Rightarrow> []
      | Some a \<Rightarrow>
          (case (user a, amount a) of
             (Some u, Some v) \<Rightarrow>
               if u = [] \<or> v = 0 then []
               else [ledger_entry (toLowerCase u) (bet_points v) bet_volume (bet_metadata l a v)]
           | _ \<Rightarrow> []))"

definition win_entries :: "ledger_row list \<Rightarrow> log \<Rightarrow> ledger_row list" where
  "win_entries L l =
     (case args l of
        None \<Rightarrow> []
      | Some a \<Rightarrow>
          (case (user a, amount a) of
             (Some u, Some payout) \<Rightarrow>
               if u = [] \<or> payout = 0 then []
               else (case latest_bet (toLowerCase u) (Number_bigint (marketId a)) L of
                       None \<Rightarrow> []
                     | Some r \<Rightarrow>
                         (case metadata r of
                            None \<Rightarrow> []
                          | Some md \<Rightarrow>
                              (case md_betAmount md of
                                 None \<Rightarrow> []
                               | Some b \<Rightarrow>
                                   if to_double b = 0 then []
                                   else [ledger_entry (toLowerCase u) (win_points b) win_bonus
                                           (win_metadata l a payout)])))
           | _ \<Rightarrow> []))"



text \<open>The calls of \<open>ensureUserExists\<close>.\<close>

definition is_users_call :: "db_call \<Rightarrow> bool" where
  "is_users_call c = (case c of UsersSelect a \<Rightarrow> True | UsersInsert a t \<Rightarrow> True | _ \<Rightarrow> False)"

text \<open>After the calls of \<open>ensureUserExists\<close>, the calls of an award are one of four sequences.\<close>

definition award_calls :: "string \<Rightarrow> ledger_row \<Rightarrow> (db_call \<times> bool) list \<Rightarrow> bool" where
  "award_calls a r T \<longleftrightarrow>
     T = [] \<or> T = [(LedgerInsert r, False)] \<or> T = [(LedgerInsert r, True), (UsersSelect a, False)] \<or>
     (\<exists>t ok. T = [(LedgerInsert r, True), (UsersSelect a, True), (UsersUpdate a t, ok)])"

text \<open>The calls of an award of \<^verbatim>\<open>index.js\<close> are one of three sequences.\<close>

definition award_calls_idx :: "string \<Rightarrow> int \<Rightarrow> ledger_row \<Rightarrow> (db_call \<times> bool) list \<Rightarrow> bool" where
  "award_calls_idx a p r T \<longleftrightarrow>
     T = [(LedgerInsert r, False)] \<or>
     (\<exists>ok. T = [(LedgerInsert r, True), (UsersSelect a, False), (UsersInsert a p, ok)]) \<or>
     (\<exists>t ok. T = [(LedgerInsert r, True), (UsersSelect a, True), (UsersUpdate a t, ok)])"

text \<open>From \<open>w\<close> to \<open>w'\<close> the record of calls grows by calls of kind \<open>P\<close>.\<close>

definition grows_by :: "(db_call \<Rightarrow> bool) \<Rightarrow> world \<Rightarrow> world \<Rightarrow> bool" where
  "grows_by P w w' \<longleftrightarrow> (\<exists>T. calls w' = calls w @ T \<and> (\<forall>c \<in> set T. P (fst c)))"

section \<open>Basic facts\<close>

lemma take_fault_nil: "faults w = [] \<Longrightarrow> take_fault w = (False, w)"
  by (simp add: take_fault_def)

lemma lower_char_idem: "lower_char (lower_char c) = lower_char c"
proof -
  have "(of_char (char_of (n + 32)) :: nat) = n + 32" if "n \<le> 90" for n :: nat
    using that by simp
  then show ?thesis
    by (simp add: lower_char_def Let_def)
qed

lemma toLowerCase_idem: "toLowerCase (toLowerCase s) = toLowerCase s"
  by (simp add: toLowerCase_def lower_char_idem)

lemmas db_defs = users_select_def users_insert_def users_update_def ledger_insert_def
  ledger_select_latest_def ledger_select_single_def log_call_def

lemma for_each_append:
  "for_each h (xs @ ys) w =
     (case for_each h xs w of (Some e, w1) \<Rightarrow> (Some e, w1) | (None, w1) \<Rightarrow> for_each h ys w1)"
  by (induction xs arbitrary: w) (auto split: prod.splits option.splits)

lemma for_each_no_throw:
  assumes "\<And>l w. fst (h l w) = None"
  shows "for_each h ls w = (None, foldl (\<lambda>w l. snd (h l w)) w ls)"
proof (induction ls arbitrary: w)
  case Nil
  show ?case by simp
next
  case (Cons l ls)
  obtain w1 where "h l w = (None, w1)"
    using assms [of l w] by (cases "h l w") simp
  with Cons show ?case by simp
qed

lemma handlers_no_throw:
  "fst (handleBetPlaced l w) = None" "fst (handleWinningsClaimed l w) = None"
  by (simp_all add: handleBetPlaced_def handleWinningsClaimed_def try_catch_def)

lemma run_events_window:
  "run_events (map BetPlaced bs @ map WinningsClaimed ws) w =
     foldl (\<lambda>w l. snd (handleWinningsClaimed l w)) (foldl (\<lambda>w l. snd (handleBetPlaced l w)) w bs) ws"
  by (simp add: run_events_def foldl_map)

text \<open>
  The handlers never throw, so both loops of a tick run to their end: a tick either changes
  nothing or sets the cursor to the head on the store all the logs of the window have left.
\<close>

lemma tick_unfold:
  "tick node s =
     (case getBlockNumber node of
        Inl e \<Rightarrow> s
      | Inr to \<Rightarrow>
          if to \<le> lastProcessedBlock s then s
          else (case getLogs_BetPlaced node (lastProcessedBlock s + 1) to of
                  Inl e \<Rightarrow> s
                | Inr betLogs \<Rightarrow>
                    (case getLogs_WinningsClaimed node (lastProcessedBlock s + 1) to of
                       Inl e \<Rightarrow> s
                     | Inr winLogs \<Rightarrow>
                         \<lparr>lastProcessedBlock = to,
                          db = run_events (map BetPlaced betLogs @ map WinningsClaimed winLogs) (db s)\<rparr>)))"
  by (simp add: tick_def tick_with_def run_events_window
      for_each_no_throw [of handleBetPlaced, OF handlers_no_throw(1)]
      for_each_no_throw [of handleWinningsClaimed, OF handlers_no_throw(2)]
      split: sum.splits)

lemma tick_mono: "lastProcessedBlock s \<le> lastProcessedBlock (tick node s)"
  by (simp add: tick_unfold split: sum.splits)

lemma ticks_mono: "lastProcessedBlock s \<le> lastProcessedBlock (ticks nodes s)"
proof (induction nodes arbitrary: s)
  case Nil
  show ?case by (simp add: ticks_def)
next
  case (Cons node nodes)
  have "ticks (node # nodes) s = ticks nodes (tick node s)"
    by (simp add: ticks_def)
  with tick_mono [of s node] Cons [of "tick node s"] show ?case
    by simp
qed

text \<open>A tick is its two parts, one after the other.\<close>

lemma tick_in_two_parts:
  "tick node s = (case scan_window node s of None \<Rightarrow> s | Some sc \<Rightarrow> process_scan sc s)"
  by (auto simp: tick_def tick_with_def scan_window_def process_scan_def
      split: sum.splits prod.splits option.splits)

text \<open>
  The catch block of the callback: were a handler to throw, the cursor would keep its value.
\<close>

lemma tick_with_throw_keeps_cursor:
  assumes "getBlockNumber node = Inr to"
    and "getLogs_BetPlaced node (lastProcessedBlock s + 1) to = Inr betLogs"
    and "getLogs_WinningsClaimed node (lastProcessedBlock s + 1) to = Inr winLogs"
    and "fst (for_each onBet betLogs (db s)) \<noteq> None \<or>
         fst (for_each onWin winLogs (snd (for_each onBet betLogs (db s)))) \<noteq> None"
  shows "lastProcessedBlock (tick_with onBet onWin node s) = lastProcessedBlock s"
  using assms by (auto simp: tick_with_def split: sum.splits prod.splits option.splits)

section \<open>Doubles\<close>


















section \<open>The cursor of the poller\<close>

text \<open>
  Claim C3, amended. For ticks that run one after another the cursor never regresses, over
  one tick and over any number of them. A tick moves the cursor only when the head \<open>to\<close> is
  beyond it and both log queries returned; the cursor is then \<open>to\<close>, in the state whose store
  results from handling every \<open>BetPlaced\<close> log and then every \<open>WinningsClaimed\<close> log of the
  window. Whenever the three queries return with the head beyond the cursor, the cursor does
  move to \<open>to\<close>, whatever calls of the store fail while the logs are handled. When
  \<^verbatim>\<open>getBlockNumber\<close> or \<^verbatim>\<open>getLogs\<close> throws, or the head is not beyond the cursor, the tick
  changes nothing, so the next tick does what it would have done in its place: it asks for
  the window from the same block.
\<close>

theorem C3_cursor_sequential:
  "lastProcessedBlock s \<le> lastProcessedBlock (tick node s) \<and>
   lastProcessedBlock s \<le> lastProcessedBlock (ticks nodes s) \<and>
   (lastProcessedBlock (tick node s) \<noteq> lastProcessedBlock s \<longrightarrow>
      (\<exists>to betLogs winLogs.
         getBlockNumber node = Inr to \<and> lastProcessedBlock s < to \<and>
         getLogs_BetPlaced node (lastProcessedBlock s + 1) to = Inr betLogs \<and>
         getLogs_WinningsClaimed node (lastProcessedBlock s + 1) to = Inr winLogs \<and>
         tick node s =
           \<lparr>lastProcessedBlock = to,
            db = run_events (map BetPlaced betLogs @ map WinningsClaimed winLogs) (db s)\<rparr>)) \<and>
   (\<forall>to betLogs winLogs.
      getBlockNumber node = Inr to \<and> lastProcessedBlock s < to \<and>
      getLogs_BetPlaced node (lastProcessedBlock s + 1) to = Inr betLogs \<and>
      getLogs_WinningsClaimed node (lastProcessedBlock s + 1) to = Inr winLogs \<longrightarrow>
      lastProcessedBlock (tick node s) = to) \<and>
   ((\<exists>e. getBlockNumber node = Inl e) \<or>
    (\<exists>to. getBlockNumber node = Inr to \<and> to \<le> lastProcessedBlock s) \<or>
    (\<exists>to e. getBlockNumber node = Inr to \<and>
       (getLogs_BetPlaced node (lastProcessedBlock s + 1) to = Inl e \<or>
        getLogs_WinningsClaimed node (lastProcessedBlock s + 1) to = Inl e)) \<longrightarrow>
    tick node s = s \<and> tick node' (tick node s) = tick node' s)"
proof (intro conjI)
  show "lastProcessedBlock s \<le> lastProcessedBlock (tick node s)"
    by (rule tick_mono)
  show "lastProcessedBlock s \<le> lastProcessedBlock (ticks nodes s)"
    by (rule ticks_mono)
  show "lastProcessedBlock (tick node s) \<noteq> lastProcessedBlock s \<longrightarrow>
      (\<exists>to betLogs winLogs.
         getBlockNumber node = Inr to \<and> lastProcessedBlock s < to \<and>
         getLogs_BetPlaced node (lastProcessedBlock s + 1) to = Inr betLogs \<and>
         getLogs_WinningsClaimed node (lastProcessedBlock s + 1) to = Inr winLogs \<and>
         tick node s =
           \<lparr>lastProcessedBlock = to,
            db = run_events (map BetPlaced betLogs @ map WinningsClaimed winLogs) (db s)\<rparr>)"
    by (auto simp: tick_unfold split: sum.splits if_splits)
  show "\<forall>to betLogs winLogs.
      getBlockNumber node = Inr to \<and> lastProcessedBlock s < to \<and>
      getLogs_BetPlaced node (lastProcessedBlock s + 1) to = Inr betLogs \<and>
      getLogs_WinningsClaimed node (lastProcessedBlock s + 1) to = Inr winLogs \<longrightarrow>
      lastProcessedBlock (tick node s) = to"
    by (simp add: tick_unfold)
  show "(\<exists>e. getBlockNumber node = Inl e) \<or>
    (\<exists>to. getBlockNumber node = Inr to \<and> to \<le> lastProcessedBlock s) \<or>
    (\<exists>to e. getBlockNumber node = Inr to \<and>
       (getLogs_BetPlaced node (lastProcessedBlock s + 1) to = Inl e \<or>
        getLogs_WinningsClaimed node (lastProcessedBlock s + 1) to = Inl e)) \<longrightarrow>
    tick node s = s \<and> tick node' (tick node s) = tick node' s"
  proof
    assume "(\<exists>e. getBlockNumber node = Inl e) \<or>
      (\<exists>to. getBlockNumber node = Inr to \<and> to \<le> lastProcessedBlock s) \<or>
      (\<exists>to e. getBlockNumber node = Inr to \<and>
         (getLogs_BetPlaced node (lastProcessedBlock s + 1) to = Inl e \<or>
          getLogs_WinningsClaimed node (lastProcessedBlock s + 1) to = Inl e))"
    then have "tick node s = s"
      by (auto simp: tick_unfold split: sum.splits)
    then show "tick node s = s \<and> tick node' (tick node s) = tick node' s"
      by simp
  qed
qed

theorem C3_cursor_sequential_witness:
  "lastProcessedBlock example_listener = 5 \<and>
   tick (example_chain 7) example_listener =
     \<lparr>lastProcessedBlock = 7,
      db = run_events (map BetPlaced [example_bet] @ map WinningsClaimed [example_win])
             (db example_listener)\<rparr> \<and>
   sources_and_points (db (tick (example_chain 7) example_listener))
     = [(bet_volume, 125), (win_bonus, 625)] \<and>
   tick example_node_down example_listener = example_listener \<and>
   tick example_node_flaky example_listener = example_listener \<and>
   tick (example_chain 7) (tick example_node_flaky example_listener)
     = tick (example_chain 7) example_listener \<and>
   tick (example_chain 5) example_listener = example_listener \<and>
   lastProcessedBlock example_listener
     \<le> lastProcessedBlock (ticks [example_node_down, example_chain 7, example_chain 7] example_listener)"
proof -
  have c: "lastProcessedBlock example_listener = 5"
    by (simp add: example_listener_def)
  have q: "getBlockNumber (example_chain 7) = Inr 7 \<and> lastProcessedBlock example_listener < 7 \<and>
      getLogs_BetPlaced (example_chain 7) (lastProcessedBlock example_listener + 1) 7 = Inr [example_bet] \<and>
      getLogs_WinningsClaimed (example_chain 7) (lastProcessedBlock example_listener + 1) 7 = Inr [example_win]"
    by (simp add: example_chain_def example_listener_def)
  from q C3_cursor_sequential [of example_listener "example_chain 7"]
  have a: "lastProcessedBlock (tick (example_chain 7) example_listener) = 7"
    by blast
  with c have "lastProcessedBlock (tick (example_chain 7) example_listener)
      \<noteq> lastProcessedBlock example_listener"
    by simp
  with C3_cursor_sequential [of example_listener "example_chain 7"]
  obtain to betLogs winLogs where
    e: "getBlockNumber (example_chain 7) = Inr to"
      "getLogs_BetPlaced (example_chain 7) (lastProcessedBlock example_listener + 1) to = Inr betLogs"
      "getLogs_WinningsClaimed (example_chain 7) (lastProcessedBlock example_listener + 1) to = Inr winLogs"
      "tick (example_chain 7) example_listener =
         \<lparr>lastProcessedBlock = to,
          db = run_events (map BetPlaced betLogs @ map WinningsClaimed winLogs) (db example_listener)\<rparr>"
    by blast
  from e(1) q have "to = 7" by simp
  with e(2,3) q have "betLogs = [example_bet]" "winLogs = [example_win]" by simp_all
  with e(4) \<open>to = 7\<close>
  have 1: "tick (example_chain 7) example_listener =
     \<lparr>lastProcessedBlock = 7,
      db = run_events (map BetPlaced [example_bet] @ map WinningsClaimed [example_win])
             (db example_listener)\<rparr>"
    by simp
  have 2: "sources_and_points (db (tick (example_chain 7) example_listener))
     = [(bet_volume, 125), (win_bonus, 625)]"
    by code_simp
  have "\<exists>e. getBlockNumber example_node_down = Inl e"
    by (simp add: example_node_down_def)
  with C3_cursor_sequential [of example_listener example_node_down]
  have 3: "tick example_node_down example_listener = example_listener"
    by blast
  have "\<exists>to e. getBlockNumber example_node_flaky = Inr to \<and>
       (getLogs_BetPlaced example_node_flaky (lastProcessedBlock example_listener + 1) to = Inl e \<or>
        getLogs_WinningsClaimed example_node_flaky (lastProcessedBlock example_listener + 1) to = Inl e)"
    by (simp add: example_node_flaky_def example_chain_def)
  with C3_cursor_sequential [of example_listener example_node_flaky _ "example_chain 7"]
  have 4: "tick example_node_flaky example_listener = example_listener \<and>
    tick (example_chain 7) (tick example_node_flaky example_listener)
      = tick (example_chain 7) example_listener"
    by blast
  have "\<exists>to. getBlockNumber (example_chain 5) = Inr to \<and> to \<le> lastProcessedBlock example_listener"
    by (simp add: example_chain_def example_listener_def)
  with C3_cursor_sequential [of example_listener "example_chain 5"]
  have 5: "tick (example_chain 5) example_listener = example_listener"
    by blast
  from C3_cursor_sequential
    [of example_listener _ "[example_node_down, example_chain 7, example_chain 7]"]
  have 6: "lastProcessedBlock example_listener
     \<le> lastProcessedBlock (ticks [example_node_down, example_chain 7, example_chain 7] example_listener)"
    by blast
  from c 1 2 3 4 5 6 show ?thesis
    by blast
qed

text \<open>
  The claim as it stands fails: a failure in the middle of a window does not hold the cursor.
  On a store whose ledger insert fails for the bet of block 6, the handler catches the
  error, the tick over blocks 6 to 7 ends with the cursor at 7 and an empty ledger, and the
  next tick asks for blocks 8 to 9: the bet is never awarded.
\<close>

theorem C3_cursor_counterexample:
  "lastProcessedBlock (example_listener\<lparr>db := failing_ledger_world\<rparr>) = 5 \<and>
   calls (db (tick (example_chain 7) (example_listener\<lparr>db := failing_ledger_world\<rparr>))) ! 2
     = (LedgerInsert (ledger_entry ''0xabc'' 125 bet_volume example_md), False) \<and>
   lastProcessedBlock (tick (example_chain 7) (example_listener\<lparr>db := failing_ledger_world\<rparr>)) = 7 \<and>
   points_ledger (db (tick (example_chain 7) (example_listener\<lparr>db := failing_ledger_world\<rparr>))) = [] \<and>
   lastProcessedBlock
     (ticks [example_chain 7, example_chain 9] (example_listener\<lparr>db := failing_ledger_world\<rparr>)) = 9 \<and>
   points_ledger
     (db (ticks [example_chain 7, example_chain 9] (example_listener\<lparr>db := failing_ledger_world\<rparr>))) = [] \<and>
   total_of
     (db (ticks [example_chain 7, example_chain 9] (example_listener\<lparr>db := failing_ledger_world\<rparr>)))
     ''0xabc'' = 0"
proof -
  have "lastProcessedBlock (example_listener\<lparr>db := failing_ledger_world\<rparr>) = 5"
    by code_simp
  moreover have "calls (db (tick (example_chain 7) (example_listener\<lparr>db := failing_ledger_world\<rparr>))) ! 2
     = (LedgerInsert (ledger_entry ''0xabc'' 125 bet_volume example_md), False)"
    by code_simp
  moreover have "lastProcessedBlock (tick (example_chain 7) (example_listener\<lparr>db := failing_ledger_world\<rparr>)) = 7"
    by code_simp
  moreover have "points_ledger (db (tick (example_chain 7) (example_listener\<lparr>db := failing_ledger_world\<rparr>))) = []"
    by code_simp
  moreover have "lastProcessedBlock
     (ticks [example_chain 7, example_chain 9] (example_listener\<lparr>db := failing_ledger_world\<rparr>)) = 9"
    by code_simp
  moreover have "points_ledger
     (db (ticks [example_chain 7, example_chain 9] (example_listener\<lparr>db := failing_ledger_world\<rparr>))) = []"
    by code_simp
  moreover have "total_of
     (db (ticks [example_chain 7, example_chain 9] (example_listener\<lparr>db := failing_ledger_world\<rparr>)))
     ''0xabc'' = 0"
    by code_simp
  ultimately show ?thesis by simp
qed

text \<open>
  Overlapping callbacks are not within the amended claim. A callback that has its answers
  for the head 7 and is overtaken by a whole tick for the head 9 assigns 7 to the cursor that
  was 9, and awards the bet and the win of the window once more.
\<close>

lemma overlapping_callbacks_regress:
  "scan_window (example_chain 7) example_listener =
     Some \<lparr>sc_currentBlock = 7, sc_betLogs = [example_bet], sc_winLogs = [example_win]\<rparr> \<and>
   lastProcessedBlock (tick (example_chain 9) example_listener) = 9 \<and>
   lastProcessedBlock
     (process_scan \<lparr>sc_currentBlock = 7, sc_betLogs = [example_bet], sc_winLogs = [example_win]\<rparr>
        (tick (example_chain 9) example_listener)) = 7 \<and>
   sources_and_points
     (db (process_scan \<lparr>sc_currentBlock = 7, sc_betLogs = [example_bet], sc_winLogs = [example_win]\<rparr>
        (tick (example_chain 9) example_listener)))
     = [(bet_volume, 125), (win_bonus, 625), (bet_volume, 125), (win_bonus, 625)]"
proof -
  have "scan_window (example_chain 7) example_listener =
     Some \<lparr>sc_currentBlock = 7, sc_betLogs = [example_bet], sc_winLogs = [example_win]\<rparr>"
    by (simp add: scan_window_def example_chain_def example_listener_def)
  moreover have "lastProcessedBlock (tick (example_chain 9) example_listener) = 9"
    by code_simp
  moreover have "lastProcessedBlock
     (process_scan \<lparr>sc_currentBlock = 7, sc_betLogs = [example_bet], sc_winLogs = [example_win]\<rparr>
        (tick (example_chain 9) example_listener)) = 7"
    by code_simp
  moreover have "sources_and_points
     (db (process_scan \<lparr>sc_currentBlock = 7, sc_betLogs = [example_bet], sc_winLogs = [example_win]\<rparr>
        (tick (example_chain 9) example_listener)))
     = [(bet_volume, 125), (win_bonus, 625), (bet_volume, 125), (win_bonus, 625)]"
    by code_simp
  ultimately show ?thesis by simp
qed

section \<open>Malformed logs\<close>

text \<open>
  Claim C8. A log without \<open>args\<close>, without \<open>user\<close> or without \<open>amount\<close> is skipped by
  both handlers of the polling listener: the handler returns normally and the store is
  the one it was given (no ledger row, no aggregate change, no call of the store), and
  the loop of the window goes on with the logs that follow.
\<close>

theorem C8_malformed_skipped:
  assumes "missing_field l"
  shows "handleBetPlaced l w = (None, w) \<and> handleWinningsClaimed l w = (None, w) \<and>
         for_each handleBetPlaced (l # rest) w = for_each handleBetPlaced rest w \<and>
         for_each handleWinningsClaimed (l # rest) w = for_each handleWinningsClaimed rest w"
proof -
  from assms have inv: "\<not> valid_args l"
    by (auto simp: missing_field_def valid_args_def split: option.splits)
  then have b: "handleBetPlaced l w = (None, w)" and c: "handleWinningsClaimed l w = (None, w)"
    by (simp_all add: handleBetPlaced_def handleBetPlaced_body_def handleWinningsClaimed_def
        handleWinningsClaimed_body_def try_catch_def)
  then show ?thesis by simp
qed

theorem C8_malformed_skipped_witness:
  "missing_field example_malformed \<and>
   handleBetPlaced example_malformed empty_world = (None, empty_world) \<and>
   for_each handleWinningsClaimed [example_malformed, example_win] empty_world =
     for_each handleWinningsClaimed [example_win] empty_world"
proof -
  have h: "missing_field example_malformed"
    by (simp add: missing_field_def example_malformed_def)
  show ?thesis
    using h C8_malformed_skipped [OF h, of empty_world "[example_win]"] by simp
qed

section \<open>Awards on a store whose calls succeed\<close>

lemma awardPoints_ok:
  assumes "faults w = []"
  shows "users (snd (awardPoints (Some wl) p s md w)) =
           (users w)(toLowerCase wl \<mapsto>
              \<lparr>total_points = total_of w (toLowerCase wl) + p, last_bet_timestamp = now w\<rparr>)"
    and "points_ledger (snd (awardPoints (Some wl) p s md w)) =
           points_ledger w @ [ledger_entry (toLowerCase wl) p s md]"
    and "faults (snd (awardPoints (Some wl) p s md w)) = []"
    and "now (snd (awardPoints (Some wl) p s md w)) = now w"
  using assms
  by (auto simp: awardPoints_def awardPoints_body_def try_catch_def ensureUserExists_def Let_def db_defs
      take_fault_nil toLowerCase_idem total_of_def split: option.splits prod.splits)




lemma Number_bigint_0: "Number_bigint 0 = 0"
  by (simp add: Number_bigint_def to_double_def)



section \<open>Points of a bet\<close>




section \<open>Errors stay inside the handlers\<close>

text \<open>The body of \<open>awardPoints\<close> does throw: here the insert of the user row fails.\<close>

lemma awardPoints_body_can_throw:
  "fst (awardPoints_body (Some ''0xabc'') 125 bet_volume md (empty_world\<lparr>faults := [False, True]\<rparr>))
     = Some (PgError OtherError)"
  by (simp add: awardPoints_body_def ensureUserExists_def db_defs take_fault_def empty_world_def Let_def)

text \<open>
  Claim C10. \<open>awardPoints\<close> (both variants) and the two handlers of the polling listener
  return normally on every store, whatever calls fail; hence a tick whose three queries of
  the node succeed advances the cursor to the head, whatever happened to the awards.
\<close>

theorem C10_errors_contained:
  "fst (awardPoints wallet p src md w) = None \<and>
   fst (awardPoints_idx wallet p src md w) = None \<and>
   fst (handleBetPlaced l w) = None \<and>
   fst (handleWinningsClaimed l w) = None \<and>
   (getBlockNumber node = Inr to \<and> lastProcessedBlock s < to \<and>
    getLogs_BetPlaced node (lastProcessedBlock s + 1) to = Inr betLogs \<and>
    getLogs_WinningsClaimed node (lastProcessedBlock s + 1) to = Inr winLogs \<longrightarrow>
    lastProcessedBlock (tick node s) = to)"
  by (simp add: awardPoints_def awardPoints_idx_def handlers_no_throw try_catch_def tick_def
      tick_with_def for_each_no_throw [of handleBetPlaced, OF handlers_no_throw(1)]
      for_each_no_throw [of handleWinningsClaimed, OF handlers_no_throw(2)])

theorem C10_errors_contained_witness:
  "getBlockNumber example_node = Inr 7 \<and> lastProcessedBlock (example_listener\<lparr>db := failing_ledger_world\<rparr>) < 7 \<and>
   getLogs_BetPlaced example_node (lastProcessedBlock (example_listener\<lparr>db := failing_ledger_world\<rparr>) + 1) 7 = Inr [example_bet] \<and>
   getLogs_WinningsClaimed example_node (lastProcessedBlock (example_listener\<lparr>db := failing_ledger_world\<rparr>) + 1) 7 = Inr [example_win] \<and>
   lastProcessedBlock (tick example_node (example_listener\<lparr>db := failing_ledger_world\<rparr>)) = 7 \<and>
   points_ledger (db (tick example_node (example_listener\<lparr>db := failing_ledger_world\<rparr>))) = []"
proof -
  have h: "getBlockNumber example_node = Inr 7 \<and> lastProcessedBlock (example_listener\<lparr>db := failing_ledger_world\<rparr>) < 7 \<and>
   getLogs_BetPlaced example_node (lastProcessedBlock (example_listener\<lparr>db := failing_ledger_world\<rparr>) + 1) 7 = Inr [example_bet] \<and>
   getLogs_WinningsClaimed example_node (lastProcessedBlock (example_listener\<lparr>db := failing_ledger_world\<rparr>) + 1) 7 = Inr [example_win]"
    by (simp add: example_node_def example_listener_def)
  have l: "points_ledger (db (tick example_node (example_listener\<lparr>db := failing_ledger_world\<rparr>))) = []"
    by code_simp
  show ?thesis
    using h l C10_errors_contained [of _ _ _ _ _ _ example_node 7 "example_listener\<lparr>db := failing_ledger_world\<rparr>" "[example_bet]" "[example_win]"]
    by simp
qed

section \<open>Effects of the handlers on a store whose calls succeed\<close>


lemma credit_Nil: "credit x [] = 0"
  by (simp add: credit_def)

lemma credit_entry:
  "credit x [ledger_entry a p s md] = (if a = x then p else 0)"
  by (simp add: credit_def ledger_entry_def)


lemma awardPoints_effect:
  assumes "faults w = []"
  shows "points_ledger (snd (awardPoints (Some wl) p s md w)) =
           points_ledger w @ [ledger_entry (toLowerCase wl) p s md]"
    and "total_of (snd (awardPoints (Some wl) p s md w)) x =
           total_of w x + credit x [ledger_entry (toLowerCase wl) p s md]"
    and "faults (snd (awardPoints (Some wl) p s md w)) = []"
  using assms by (simp_all add: awardPoints_ok credit_entry total_of_def)


lemma valid_argsE:
  assumes "valid_args l"
  obtains a u v where "args l = Some a" "user a = Some u" "u \<noteq> []" "amount a = Some v" "v \<noteq> 0"
  using assms by (auto simp: valid_args_def split: option.splits)


lemma ledger_select_latest_ok:
  assumes "faults w = []"
  shows "fst (ledger_select_latest a m w) = map_option metadata (latest_bet a m (points_ledger w))"
    and "points_ledger (snd (ledger_select_latest a m w)) = points_ledger w"
    and "users (snd (ledger_select_latest a m w)) = users w"
    and "faults (snd (ledger_select_latest a m w)) = []"
  using assms
  by (auto simp: ledger_select_latest_def latest_bet_def take_fault_nil log_call_def split: list.splits)

lemma ledger_select_latest_world:
  assumes "faults w = []"
  shows "total_of (snd (ledger_select_latest a m w)) x = total_of w x"
  using assms by (simp add: total_of_def ledger_select_latest_ok)

lemma handleWinningsClaimed_valid:
  assumes "args l = Some a" and "user a = Some u" and "u \<noteq> []" and "amount a = Some v" and "v \<noteq> 0"
  shows "handleWinningsClaimed l w =
     (case ledger_select_latest (toLowerCase u) (Number_bigint (marketId a)) w of
        (Some (Some md), w1) \<Rightarrow>
          (case md_betAmount md of
             None \<Rightarrow> (None, w1)
           | Some b \<Rightarrow>
               if to_double b = 0 then (None, w1)
               else awardPoints (Some u) (win_points b) win_bonus (win_metadata l a v) w1)
      | (_, w1) \<Rightarrow> (None, w1))"
  using assms
  by (auto simp: handleWinningsClaimed_def handleWinningsClaimed_body_def valid_args_def Let_def
      win_points_def win_metadata_def awardPoints_def try_catch_def
      split: prod.splits option.splits)

lemma handleWinningsClaimed_effect:
  assumes "faults w = []"
  shows "points_ledger (snd (handleWinningsClaimed l w)) = points_ledger w @ win_entries (points_ledger w) l"
    and "total_of (snd (handleWinningsClaimed l w)) x = total_of w x + credit x (win_entries (points_ledger w) l)"
    and "faults (snd (handleWinningsClaimed l w)) = []"
proof -
  have "points_ledger (snd (handleWinningsClaimed l w)) = points_ledger w @ win_entries (points_ledger w) l \<and>
    total_of (snd (handleWinningsClaimed l w)) x = total_of w x + credit x (win_entries (points_ledger w) l) \<and>
    faults (snd (handleWinningsClaimed l w)) = []"
  proof (cases "valid_args l")
    case False
    then have "handleWinningsClaimed l w = (None, w)"
      by (simp add: handleWinningsClaimed_def handleWinningsClaimed_body_def try_catch_def)
    moreover from False have "win_entries (points_ledger w) l = []"
      by (auto simp: win_entries_def valid_args_def split: option.splits)
    ultimately show ?thesis
      using assms by (simp add: credit_Nil)
  next
    case True
    then obtain a u v where ok:
      "args l = Some a" "user a = Some u" "u \<noteq> []" "amount a = Some v" "v \<noteq> 0"
      by (rule valid_argsE)
    obtain r w1 where sel: "ledger_select_latest (toLowerCase u) (Number_bigint (marketId a)) w = (r, w1)"
      by (cases "ledger_select_latest (toLowerCase u) (Number_bigint (marketId a)) w")
    from ledger_select_latest_ok [OF assms, of "toLowerCase u" "Number_bigint (marketId a)"] sel
    have r: "r = map_option metadata
        (latest_bet (toLowerCase u) (Number_bigint (marketId a)) (points_ledger w))"
      and w1: "points_ledger w1 = points_ledger w" "faults w1 = []"
      by simp_all
    from ledger_select_latest_world [OF assms, of "toLowerCase u" "Number_bigint (marketId a)"] sel
    have t1: "total_of w1 y = total_of w y" for y
      by simp
    show ?thesis
      using ok r w1 t1 sel
      by (auto simp: handleWinningsClaimed_valid [OF ok] win_entries_def awardPoints_effect credit_Nil
          split: option.splits)
  qed
  then show "points_ledger (snd (handleWinningsClaimed l w)) = points_ledger w @ win_entries (points_ledger w) l"
    and "total_of (snd (handleWinningsClaimed l w)) x = total_of w x + credit x (win_entries (points_ledger w) l)"
    and "faults (snd (handleWinningsClaimed l w)) = []"
    by simp_all
qed










section \<open>The aggregate and the ledger\<close>




section \<open>Replaying a window\<close>















section \<open>A payout of zero\<close>

text \<open>The polling listener skips a claim whose payout is \<^verbatim>\<open>0n\<close>: the store is untouched.\<close>

lemma zero_payout_skipped:
  assumes "args l = Some a" and "amount a = Some 0"
  shows "handleWinningsClaimed l w = (None, w)"
  using assms
  by (simp add: handleWinningsClaimed_def handleWinningsClaimed_body_def valid_args_def try_catch_def)

text \<open>
  Claim C6. A \<open>WinningsClaimed\<close> log with payout zero gives no award. The polling listener
  does so (first conjunct, an instance of \<open>zero_payout_skipped\<close>). \<^verbatim>\<open>handleWinningsClaimed\<close>
  of \<^verbatim>\<open>index.js\<close> never looks at the payout: after the example bet of 12.50 USDC it
  answers the zero payout with a \<open>win_bonus\<close> row of 625 points and a total of 750.
\<close>

theorem C6_zero_payout:
  "handleWinningsClaimed example_zero_payout (snd (handleBetPlaced example_bet empty_world)) =
     (None, snd (handleBetPlaced example_bet empty_world)) \<and>
   sources_and_points (snd (handleBetPlaced_idx example_bet empty_world)) = [(bet_volume, 125)] \<and>
   total_of (snd (handleBetPlaced_idx example_bet empty_world)) ''0xabc'' = 125 \<and>
   fst (handleWinningsClaimed_idx example_zero_payout (snd (handleBetPlaced_idx example_bet empty_world))) = None \<and>
   sources_and_points
     (snd (handleWinningsClaimed_idx example_zero_payout (snd (handleBetPlaced_idx example_bet empty_world))))
     = [(bet_volume, 125), (win_bonus, 625)] \<and>
   total_of
     (snd (handleWinningsClaimed_idx example_zero_payout (snd (handleBetPlaced_idx example_bet empty_world))))
     ''0xabc'' = 750"
proof -
  have "handleWinningsClaimed example_zero_payout (snd (handleBetPlaced example_bet empty_world)) =
     (None, snd (handleBetPlaced example_bet empty_world))"
    by (rule zero_payout_skipped [where a = "\<lparr>marketId = 1, user = Some ''0xabc'', amount = Some 0\<rparr>"])
      (simp_all add: example_zero_payout_def)
  moreover have "sources_and_points (snd (handleBetPlaced_idx example_bet empty_world)) = [(bet_volume, 125)]"
    by code_simp
  moreover have "total_of (snd (handleBetPlaced_idx example_bet empty_world)) ''0xabc'' = 125"
    by code_simp
  moreover have "fst (handleWinningsClaimed_idx example_zero_payout (snd (handleBetPlaced_idx example_bet empty_world))) = None"
    by code_simp
  moreover have "sources_and_points
     (snd (handleWinningsClaimed_idx example_zero_payout (snd (handleBetPlaced_idx example_bet empty_world))))
     = [(bet_volume, 125), (win_bonus, 625)]"
    by code_simp
  moreover have "total_of
     (snd (handleWinningsClaimed_idx example_zero_payout (snd (handleBetPlaced_idx example_bet empty_world))))
     ''0xabc'' = 750"
    by code_simp
  ultimately show ?thesis by simp
qed

section \<open>The win bonus\<close>

text \<open>
  What \<open>handleWinningsClaimed\<close> of the polling listener does with the row its lookup returns,
  on a store whose calls succeed: the bonus is \<open>win_points b\<close>, the product \<open>b * 10 * 5\<close> taken in
  doubles and floored, for the bet amount \<open>b\<close> of the latest \<open>bet_volume\<close> row of the wallet with
  this \<open>market_id\<close>, and nothing without such a row. The product in doubles can fall short of
  \<open>\<lfloor>b * 50\<rfloor>\<close>: a bet of 0.94 USDC gives 46 points, not 47.
\<close>

lemma win_bonus_awarded:
  assumes "args l = Some a" and "user a = Some u" and "u \<noteq> []" and "amount a = Some v" and "v \<noteq> 0"
    and "faults w = []"
    and "latest_bet (toLowerCase u) (Number_bigint (marketId a)) (points_ledger w) = Some r"
    and "metadata r = Some md" and "md_betAmount md = Some b" and "to_double b \<noteq> 0"
  shows "points_ledger (snd (handleWinningsClaimed l w)) =
           points_ledger w @ [ledger_entry (toLowerCase u) (win_points b) win_bonus (win_metadata l a v)] \<and>
         total_of (snd (handleWinningsClaimed l w)) (toLowerCase u) =
           total_of w (toLowerCase u) + win_points b"
proof -
  have "win_entries (points_ledger w) l =
          [ledger_entry (toLowerCase u) (win_points b) win_bonus (win_metadata l a v)]"
    using assms by (simp add: win_entries_def)
  then show ?thesis
    using handleWinningsClaimed_effect [OF assms(6), of l] by (simp add: credit_entry)
qed

lemma win_points_of_small_bet:
  "win_points (formatUnits6 940000) = 46 \<and> \<lfloor>(of_int 940000 / 10 ^ 6 :: rat) * 50\<rfloor> = 47"
  by code_simp

lemma win_without_bet_dropped:
  assumes "args l = Some a" and "user a = Some u" and "amount a = Some v"
    and "faults w = []"
    and "latest_bet (toLowerCase u) (Number_bigint (marketId a)) (points_ledger w) = None"
  shows "fst (handleWinningsClaimed l w) = None \<and>
         points_ledger (snd (handleWinningsClaimed l w)) = points_ledger w \<and>
         (\<forall>x. total_of (snd (handleWinningsClaimed l w)) x = total_of w x)"
proof -
  have "win_entries (points_ledger w) l = []"
    using assms by (simp add: win_entries_def)
  then show ?thesis
    using handleWinningsClaimed_effect [OF assms(4), of l] handlers_no_throw(2) [of l w]
    by (simp add: credit_Nil)
qed

text \<open>
  \<^verbatim>\<open>market_id: metadata.marketId || null\<close> stores \<^verbatim>\<open>null\<close> for the market whose id is 0,
  so the row of a bet on that market is never a match of the lookup
  \<^verbatim>\<open>.eq('market_id', 0)\<close>; the row of a bet on any other market is the latest match.
\<close>

lemma bet_on_market_zero_not_found: "bet_rows x 0 (bet_entries l) = []"
  by (auto simp: bet_entries_def bet_rows_def ledger_entry_def bet_metadata_def or_null_def
      split: option.splits)

lemma bet_on_other_market_found:
  assumes "args l = Some a" and "user a = Some u" and "u \<noteq> []" and "amount a = Some v" and "v \<noteq> 0"
    and "Number_bigint (marketId a) \<noteq> 0"
  shows "latest_bet (toLowerCase u) (Number_bigint (marketId a)) (L @ bet_entries l) =
           Some (ledger_entry (toLowerCase u) (bet_points v) bet_volume (bet_metadata l a v))"
  using assms
  by (simp add: latest_bet_def bet_entries_def bet_rows_def ledger_entry_def bet_metadata_def or_null_def)

lemma win_after_bet_on_market_zero:
  assumes "args l' = Some a'" and "marketId a' = 0"
  shows "win_entries (L @ bet_entries l) l' = win_entries L l'"
proof -
  have "latest_bet x 0 (L @ bet_entries l) = latest_bet x 0 L" for x
    by (simp add: latest_bet_def bet_rows_def bet_on_market_zero_not_found [unfolded bet_rows_def])
  then show ?thesis
    using assms by (auto simp: win_entries_def Number_bigint_0 split: option.splits)
qed

text \<open>
  Claim C4. A win after a ledgered bet of amount \<open>a\<close> by the same wallet on the same market
  is to give \<open>\<lfloor>a * 50\<rfloor>\<close> points. On market 1 the polling listener does: 125 for the bet of
  12.50 USDC, 625 for its win. On market 0 the same bet is ledgered with \<open>market_id = None\<close>
  (its metadata holds the market 0 and the bet amount 12.50), and the win that follows finds no bet: no
  \<open>win_bonus\<close> row, total 125. After two bets of a wallet on one market the polling listener
  awards the bonus of the latest bet, while \<^verbatim>\<open>index.js\<close> (\<^verbatim>\<open>single()\<close> without
  \<^verbatim>\<open>limit(1)\<close>) awards none.
\<close>

theorem C4_win_bonus_market_zero:
  "sources_and_points (process_window [example_bet] [example_win] empty_world)
     = [(bet_volume, 125), (win_bonus, 625)] \<and>
   map market_id (points_ledger (snd (handleBetPlaced example_bet_market0 empty_world))) = [None] \<and>
   map (map_option md_marketId \<circ> metadata) (points_ledger (snd (handleBetPlaced example_bet_market0 empty_world)))
     = [Some (Some 0)] \<and>
   map (map_option md_betAmount \<circ> metadata) (points_ledger (snd (handleBetPlaced example_bet_market0 empty_world)))
     = [Some (Some (25 / 2))] \<and>
   sources_and_points (process_window [example_bet_market0] [example_win_market0] empty_world)
     = [(bet_volume, 125)] \<and>
   total_of (process_window [example_bet_market0] [example_win_market0] empty_world) ''0xabc'' = 125 \<and>
   sources_and_points (run_events [BetPlaced example_bet, BetPlaced example_bet, WinningsClaimed example_win] empty_world)
     = [(bet_volume, 125), (bet_volume, 125), (win_bonus, 625)] \<and>
   sources_and_points (run_events_idx [BetPlaced example_bet, BetPlaced example_bet, WinningsClaimed example_win] empty_world)
     = [(bet_volume, 125), (bet_volume, 125)]"
proof -
  have "sources_and_points (process_window [example_bet] [example_win] empty_world)
     = [(bet_volume, 125), (win_bonus, 625)]"
    by code_simp
  moreover have "map market_id (points_ledger (snd (handleBetPlaced example_bet_market0 empty_world))) = [None]"
    by code_simp
  moreover have "map (map_option md_marketId \<circ> metadata) (points_ledger (snd (handleBetPlaced example_bet_market0 empty_world)))
     = [Some (Some 0)]"
    by code_simp
  moreover have "map (map_option md_betAmount \<circ> metadata) (points_ledger (snd (handleBetPlaced example_bet_market0 empty_world)))
     = [Some (Some (25 / 2))]"
    by code_simp
  moreover have "sources_and_points (process_window [example_bet_market0] [example_win_market0] empty_world)
     = [(bet_volume, 125)]"
    by code_simp
  moreover have "total_of (process_window [example_bet_market0] [example_win_market0] empty_world) ''0xabc'' = 125"
    by code_simp
  moreover have "sources_and_points (run_events [BetPlaced example_bet, BetPlaced example_bet, WinningsClaimed example_win] empty_world)
     = [(bet_volume, 125), (bet_volume, 125), (win_bonus, 625)]"
    by code_simp
  moreover have "sources_and_points (run_events_idx [BetPlaced example_bet, BetPlaced example_bet, WinningsClaimed example_win] empty_world)
     = [(bet_volume, 125), (bet_volume, 125)]"
    by code_simp
  ultimately show ?thesis by simp
qed

section \<open>The calls of the store, whatever fails\<close>

lemma take_fault_fields:
  "users (snd (take_fault w)) = users w" "points_ledger (snd (take_fault w)) = points_ledger w"
  "calls (snd (take_fault w)) = calls w" "now (snd (take_fault w)) = now w"
  by (simp_all add: take_fault_def split: list.splits)

lemma users_select_any:
  "users (snd (users_select a w)) = users w"
  "points_ledger (snd (users_select a w)) = points_ledger w"
  "calls (snd (users_select a w)) = calls w @ [(UsersSelect a, fst (users_select a w) \<noteq> None)]"
  "fst (users_select a w) = Some u \<Longrightarrow> users w a = Some u"
  by (auto simp: users_select_def log_call_def take_fault_def split: list.splits if_splits)

lemma users_insert_any:
  "points_ledger (snd (users_insert a r w)) = points_ledger w"
  "\<exists>ok. calls (snd (users_insert a r w)) = calls w @ [(UsersInsert a (total_points r), ok)]"
  "users (snd (users_insert a r w)) = users w \<or>
     users w a = None \<and> users (snd (users_insert a r w)) = (users w)(a \<mapsto> r)"
  by (auto simp: users_insert_def log_call_def take_fault_def split: list.splits if_splits)

lemma users_update_any:
  "points_ledger (snd (users_update a t ts w)) = points_ledger w"
  "\<exists>ok. calls (snd (users_update a t ts w)) = calls w @ [(UsersUpdate a t, ok)]"
  by (auto simp: users_update_def log_call_def take_fault_def split: list.splits if_splits option.splits)

lemma ledger_insert_any:
  "users (snd (ledger_insert r w)) = users w"
  "calls (snd (ledger_insert r w)) = calls w @ [(LedgerInsert r, fst (ledger_insert r w) = None)]"
  "fst (ledger_insert r w) = None \<Longrightarrow> points_ledger (snd (ledger_insert r w)) = points_ledger w @ [r]"
  "fst (ledger_insert r w) = Some e \<Longrightarrow> points_ledger (snd (ledger_insert r w)) = points_ledger w"
  by (auto simp: ledger_insert_def log_call_def take_fault_def split: list.splits if_splits)

lemma ledger_select_latest_any:
  "users (snd (ledger_select_latest a m w)) = users w"
  "points_ledger (snd (ledger_select_latest a m w)) = points_ledger w"
  "\<exists>ok. calls (snd (ledger_select_latest a m w)) = calls w @ [(LedgerSelect a m, ok)]"
  by (auto simp: ledger_select_latest_def log_call_def take_fault_def split: list.splits if_splits)

lemma ensureUserExists_any:
  "points_ledger (snd (ensureUserExists wl w)) = points_ledger w"
  "\<exists>T. calls (snd (ensureUserExists wl w)) = calls w @ T \<and> (\<forall>c \<in> set T. is_users_call (fst c))"
  "total_of (snd (ensureUserExists wl w)) x = total_of w x"
  "users w x = Some r \<Longrightarrow> users (snd (ensureUserExists wl w)) x = Some r"
proof -
  let ?a = "toLowerCase wl"
  obtain eu w1 where s: "users_select ?a w = (eu, w1)"
    by (cases "users_select ?a w")
  obtain er w2 where i: "users_insert ?a \<lparr>total_points = 0, last_bet_timestamp = now w1\<rparr> w1 = (er, w2)"
    by (cases "users_insert ?a \<lparr>total_points = 0, last_bet_timestamp = now w1\<rparr> w1")
  from users_select_any [of ?a w] s
  have w1: "users w1 = users w" "points_ledger w1 = points_ledger w"
    "calls w1 = calls w @ [(UsersSelect ?a, eu \<noteq> None)]"
    by simp_all
  from users_insert_any [of ?a "\<lparr>total_points = 0, last_bet_timestamp = now w1\<rparr>" w1] i
  obtain ok where w2: "points_ledger w2 = points_ledger w1"
    "calls w2 = calls w1 @ [(UsersInsert ?a 0, ok)]"
    "users w2 = users w1 \<or>
       users w1 ?a = None \<and> users w2 = (users w1)(?a \<mapsto> \<lparr>total_points = 0, last_bet_timestamp = now w1\<rparr>)"
    by auto
  have e: "snd (ensureUserExists wl w) = (if eu \<noteq> None then w1 else w2)"
    by (simp add: ensureUserExists_def Let_def s i split: option.splits)
  show "points_ledger (snd (ensureUserExists wl w)) = points_ledger w"
    by (simp add: e w1 w2)
  show "\<exists>T. calls (snd (ensureUserExists wl w)) = calls w @ T \<and> (\<forall>c \<in> set T. is_users_call (fst c))"
    by (simp add: e w1 w2 is_users_call_def)
  show "total_of (snd (ensureUserExists wl w)) x = total_of w x"
    using w2(3) by (auto simp: e w1 total_of_def)
  show "users w x = Some r \<Longrightarrow> users (snd (ensureUserExists wl w)) x = Some r"
    using w2(3) by (auto simp: e w1)
qed

lemma awardPoints_shape:
  fixes wl p s md w
  defines "a \<equiv> toLowerCase wl" and "w' \<equiv> snd (awardPoints (Some wl) p s md w)"
  defines "r \<equiv> ledger_entry a p s md"
  shows "\<exists>Te T. calls w' = calls w @ Te @ T \<and> (\<forall>c \<in> set Te. is_users_call (fst c)) \<and> award_calls a r T \<and>
           (points_ledger w' = points_ledger w @ [r] \<or>
            points_ledger w' = points_ledger w \<and> (\<forall>c \<in> set T. \<not> is_update (fst c)) \<and>
              (\<forall>x. total_of w' x = total_of w x) \<and>
              (\<forall>x u. users w x = Some u \<longrightarrow> users w' x = Some u))"
proof -
  obtain th w1 where e: "ensureUserExists a w = (th, w1)"
    by (cases "ensureUserExists a w")
  from ensureUserExists_any [where wl = a and w = w] e
  obtain Te where w1: "points_ledger w1 = points_ledger w" "calls w1 = calls w @ Te"
    "\<forall>c \<in> set Te. is_users_call (fst c)" "\<And>x. total_of w1 x = total_of w x"
    "\<And>x u. users w x = Some u \<Longrightarrow> users w1 x = Some u"
    by auto
  obtain le w2 where l: "ledger_insert r w1 = (le, w2)"
    by (cases "ledger_insert r w1")
  from ledger_insert_any [where r = r and w = w1] l
  have w2: "users w2 = users w1" "calls w2 = calls w1 @ [(LedgerInsert r, le = None)]"
    "le = None \<Longrightarrow> points_ledger w2 = points_ledger w1 @ [r]"
    "\<And>e. le = Some e \<Longrightarrow> points_ledger w2 = points_ledger w1"
    by simp_all
  obtain us w3 where s: "users_select a w2 = (us, w3)"
    by (cases "users_select a w2")
  from users_select_any(1-3) [where a = a and w = w2] s
  have w3: "users w3 = users w2" "points_ledger w3 = points_ledger w2"
    "calls w3 = calls w2 @ [(UsersSelect a, us \<noteq> None)]"
    by simp_all
  show ?thesis
  proof (cases th)
    case (Some ex)
    then have "w' = w1"
      by (simp add: w'_def awardPoints_def awardPoints_body_def try_catch_def Let_def e a_def [symmetric])
    then show ?thesis
      using w1 by (intro exI [of _ Te] exI [of _ "[]"]) (simp add: award_calls_def)
  next
    case None
    note th = this
    show ?thesis
    proof (cases le)
      case (Some ex)
      then have "w' = w2"
        by (simp add: w'_def awardPoints_def awardPoints_body_def try_catch_def Let_def e th l
            a_def [symmetric] r_def [symmetric])
      then show ?thesis
        using w1 w2 Some
        by (intro exI [of _ Te] exI [of _ "[(LedgerInsert r, False)]"])
          (simp add: award_calls_def total_of_def is_update_def)
    next
      case None
      note le = this
      show ?thesis
      proof (cases us)
        case None
        then have "w' = w3"
          by (simp add: w'_def awardPoints_def awardPoints_body_def try_catch_def Let_def e th l le s
              a_def [symmetric] r_def [symmetric])
        then show ?thesis
          using w1 w2 w3 le None
          by (intro exI [of _ Te] exI [of _ "[(LedgerInsert r, True), (UsersSelect a, False)]"])
            (simp add: award_calls_def)
      next
        case (Some u)
        let ?t = "total_points u + p"
        have "w' = snd (users_update a ?t (now w3) w3)"
          by (simp add: w'_def awardPoints_def awardPoints_body_def try_catch_def Let_def e th l le s Some
              a_def [symmetric] r_def [symmetric])
        moreover from users_update_any [where a = a and t = ?t and ts = "now w3" and w = w3]
        obtain ok where "points_ledger (snd (users_update a ?t (now w3) w3)) = points_ledger w3"
          "calls (snd (users_update a ?t (now w3) w3)) = calls w3 @ [(UsersUpdate a ?t, ok)]"
          by auto
        ultimately show ?thesis
          using w1 w2 w3 le Some
          by (intro exI [of _ Te]
              exI [of _ "[(LedgerInsert r, True), (UsersSelect a, True), (UsersUpdate a ?t, ok)]"])
            (auto simp: award_calls_def)
      qed
    qed
  qed
qed

lemma last_call_split:
  assumes "Te @ [x, y, z] = pre @ c # post" and "c \<notin> set Te" and "c \<noteq> x" and "c \<noteq> y"
  shows "pre = Te @ [x, y]"
proof (cases post rule: rev_cases)
  case Nil
  with assms(1) have "(Te @ [x, y]) @ [z] = pre @ [c]" by simp
  then show ?thesis by (simp only: append1_eq_conv)
next
  case (snoc post' q)
  with assms(1) have "(Te @ [x, y]) @ [z] = (pre @ c # post') @ [q]" by simp
  then have "Te @ [x, y] = pre @ c # post'" by (simp only: append1_eq_conv)
  then have "c \<in> set (Te @ [x, y])" by simp
  with assms(2-4) show ?thesis by simp
qed

lemma update_after_insert:
  assumes "\<forall>c \<in> set Te. is_users_call (fst c)" and "award_calls a r T"
    and "Te @ T = pre @ c # post" and "is_update (fst c)"
  shows "(LedgerInsert r, True) \<in> set pre"
proof -
  have nu: "\<not> is_update (fst d)" if "d \<in> set Te" for d
    using assms(1) that by (auto simp: is_users_call_def is_update_def split: db_call.splits)
  have cin: "c \<in> set (Te @ T)"
    by (simp only: assms(3)) simp
  have nTe: "c \<notin> set Te"
    using nu assms(4) by blast
  with cin have cT: "c \<in> set T" by simp
  from assms(2) consider "T = []" | "T = [(LedgerInsert r, False)]"
    | "T = [(LedgerInsert r, True), (UsersSelect a, False)]"
    | t ok where "T = [(LedgerInsert r, True), (UsersSelect a, True), (UsersUpdate a t, ok)]"
    unfolding award_calls_def by blast
  then show ?thesis
  proof cases
    case 1
    with cT show ?thesis by simp
  next
    case 2
    with cT assms(4) show ?thesis by (simp add: is_update_def)
  next
    case 3
    with cT assms(4) show ?thesis by (auto simp: is_update_def)
  next
    case 4
    have "c \<noteq> (LedgerInsert r, True)" "c \<noteq> (UsersSelect a, True)"
      using assms(4) by (auto simp: is_update_def)
    with nTe have "pre = Te @ [(LedgerInsert r, True), (UsersSelect a, True)]"
      using last_call_split [of Te _ _ _ pre c post] assms(3) 4 by simp
    then show ?thesis by simp
  qed
qed

lemma awardPoints_idx_shape:
  fixes wl p s md w
  defines "a \<equiv> toLowerCase wl" and "w' \<equiv> snd (awardPoints_idx (Some wl) p s md w)"
  defines "r \<equiv> ledger_entry a p s md"
  shows "\<exists>T. calls w' = calls w @ T \<and> award_calls_idx a p r T \<and>
           (points_ledger w' = points_ledger w @ [r] \<or>
            points_ledger w' = points_ledger w \<and> T = [(LedgerInsert r, False)] \<and> users w' = users w)"
proof -
  obtain le w1 where l: "ledger_insert r w = (le, w1)"
    by (cases "ledger_insert r w")
  from ledger_insert_any [where r = r and w = w] l
  have w1: "users w1 = users w" "calls w1 = calls w @ [(LedgerInsert r, le = None)]"
    "le = None \<Longrightarrow> points_ledger w1 = points_ledger w @ [r]"
    "\<And>e. le = Some e \<Longrightarrow> points_ledger w1 = points_ledger w"
    by simp_all
  obtain us w2 where s: "users_select a w1 = (us, w2)"
    by (cases "users_select a w1")
  from users_select_any(1-3) [where a = a and w = w1] s
  have w2: "users w2 = users w1" "points_ledger w2 = points_ledger w1"
    "calls w2 = calls w1 @ [(UsersSelect a, us \<noteq> None)]"
    by simp_all
  show ?thesis
  proof (cases le)
    case (Some ex)
    then have "w' = w1"
      by (simp add: w'_def awardPoints_idx_def awardPoints_body_idx_def try_catch_def l
          a_def [symmetric] r_def [symmetric])
    then show ?thesis
      using w1 Some by (simp add: award_calls_idx_def)
  next
    case None
    note le = this
    show ?thesis
    proof (cases us)
      case None
      let ?u = "\<lparr>total_points = p, last_bet_timestamp = now w2\<rparr>"
      have "w' = snd (users_insert a ?u w2)"
        by (simp add: w'_def awardPoints_idx_def awardPoints_body_idx_def try_catch_def l le s None
            a_def [symmetric] r_def [symmetric])
      moreover from users_insert_any(1,2) [where a = a and r = ?u and w = w2]
      obtain ok where "points_ledger (snd (users_insert a ?u w2)) = points_ledger w2"
        "calls (snd (users_insert a ?u w2)) = calls w2 @ [(UsersInsert a p, ok)]"
        by auto
      ultimately show ?thesis
        using w1 w2 le None by (simp add: award_calls_idx_def)
    next
      case (Some u)
      let ?t = "total_points u + p"
      have "w' = snd (users_update a ?t (now w2) w2)"
        by (simp add: w'_def awardPoints_idx_def awardPoints_body_idx_def try_catch_def l le s Some
            a_def [symmetric] r_def [symmetric])
      moreover from users_update_any [where a = a and t = ?t and ts = "now w2" and w = w2]
      obtain ok where "points_ledger (snd (users_update a ?t (now w2) w2)) = points_ledger w2"
        "calls (snd (users_update a ?t (now w2) w2)) = calls w2 @ [(UsersUpdate a ?t, ok)]"
        by auto
      ultimately show ?thesis
        using w1 w2 le Some by (simp add: award_calls_idx_def)
    qed
  qed
qed

lemma write_after_insert_idx:
  assumes "award_calls_idx a p r T" and "T = pre @ c # post" and "is_users_write (fst c)"
  shows "(LedgerInsert r, True) \<in> set pre"
proof -
  have cin: "c \<in> set T"
    by (simp only: assms(2)) simp
  from assms(1) consider "T = [(LedgerInsert r, False)]"
    | ok where "T = [(LedgerInsert r, True), (UsersSelect a, False), (UsersInsert a p, ok)]"
    | t ok where "T = [(LedgerInsert r, True), (UsersSelect a, True), (UsersUpdate a t, ok)]"
    unfolding award_calls_idx_def by blast
  then show ?thesis
  proof cases
    case 1
    with cin assms(3) show ?thesis by (simp add: is_users_write_def)
  next
    case 2
    have "c \<noteq> (LedgerInsert r, True)" "c \<noteq> (UsersSelect a, False)"
      using assms(3) by (auto simp: is_users_write_def)
    then have "pre = [] @ [(LedgerInsert r, True), (UsersSelect a, False)]"
      using last_call_split [of "[]" _ _ _ pre c post] assms(2) 2 by simp
    then show ?thesis by simp
  next
    case 3
    have "c \<noteq> (LedgerInsert r, True)" "c \<noteq> (UsersSelect a, True)"
      using assms(3) by (auto simp: is_users_write_def)
    then have "pre = [] @ [(LedgerInsert r, True), (UsersSelect a, True)]"
      using last_call_split [of "[]" _ _ _ pre c post] assms(2) 3 by simp
    then show ?thesis by simp
  qed
qed

section \<open>Ledger first, aggregate second\<close>

text \<open>
  Claim C9. In every award, on every store and whatever calls fail, a write of the total (the
  update of the users row; in \<^verbatim>\<open>index.js\<close> also the insert of a new row with the points)
  comes after the successful insert of the ledger row of this award in the record of calls.
  When the ledger row was not appended, no total has changed: in the polling listener every
  wallet's total and every existing users row are as before (\<open>ensureUserExists\<close> may have
  created a row of zero points), in \<^verbatim>\<open>index.js\<close> the users table is as before.
\<close>

theorem C9_ledger_before_credit:
  "(\<exists>T. calls (snd (awardPoints (Some wl) p s md w)) = calls w @ T \<and>
        (\<forall>pre c post. T = pre @ c # post \<and> is_update (fst c) \<longrightarrow>
           (LedgerInsert (ledger_entry (toLowerCase wl) p s md), True) \<in> set pre)) \<and>
   (points_ledger (snd (awardPoints (Some wl) p s md w)) \<noteq>
      points_ledger w @ [ledger_entry (toLowerCase wl) p s md] \<longrightarrow>
    points_ledger (snd (awardPoints (Some wl) p s md w)) = points_ledger w \<and>
    (\<forall>x. total_of (snd (awardPoints (Some wl) p s md w)) x = total_of w x) \<and>
    (\<forall>x u. users w x = Some u \<longrightarrow> users (snd (awardPoints (Some wl) p s md w)) x = Some u)) \<and>
   (\<exists>T. calls (snd (awardPoints_idx (Some wl) p s md w)) = calls w @ T \<and>
        (\<forall>pre c post. T = pre @ c # post \<and> is_users_write (fst c) \<longrightarrow>
           (LedgerInsert (ledger_entry (toLowerCase wl) p s md), True) \<in> set pre)) \<and>
   (points_ledger (snd (awardPoints_idx (Some wl) p s md w)) \<noteq>
      points_ledger w @ [ledger_entry (toLowerCase wl) p s md] \<longrightarrow>
    points_ledger (snd (awardPoints_idx (Some wl) p s md w)) = points_ledger w \<and>
    users (snd (awardPoints_idx (Some wl) p s md w)) = users w)"
proof -
  let ?r = "ledger_entry (toLowerCase wl) p s md"
  let ?w = "snd (awardPoints (Some wl) p s md w)"
  let ?v = "snd (awardPoints_idx (Some wl) p s md w)"
  from awardPoints_shape [of wl p s md w]
  obtain Te T where sh: "calls ?w = calls w @ Te @ T" "\<forall>c \<in> set Te. is_users_call (fst c)"
    "award_calls (toLowerCase wl) ?r T"
    "points_ledger ?w = points_ledger w @ [?r] \<or>
       points_ledger ?w = points_ledger w \<and> (\<forall>c \<in> set T. \<not> is_update (fst c)) \<and>
       (\<forall>x. total_of ?w x = total_of w x) \<and> (\<forall>x u. users w x = Some u \<longrightarrow> users ?w x = Some u)"
    by blast
  have 1: "\<exists>T. calls ?w = calls w @ T \<and>
        (\<forall>pre c post. T = pre @ c # post \<and> is_update (fst c) \<longrightarrow> (LedgerInsert ?r, True) \<in> set pre)"
    using sh(1) update_after_insert [OF sh(2,3)]
    by (intro exI [of _ "Te @ T"]) blast
  have 2: "points_ledger ?w \<noteq> points_ledger w @ [?r] \<longrightarrow>
    points_ledger ?w = points_ledger w \<and> (\<forall>x. total_of ?w x = total_of w x) \<and>
    (\<forall>x u. users w x = Some u \<longrightarrow> users ?w x = Some u)"
    using sh(4) by blast
  from awardPoints_idx_shape [of wl p s md w]
  obtain T' where si: "calls ?v = calls w @ T'" "award_calls_idx (toLowerCase wl) p ?r T'"
    "points_ledger ?v = points_ledger w @ [?r] \<or>
       points_ledger ?v = points_ledger w \<and> T' = [(LedgerInsert ?r, False)] \<and> users ?v = users w"
    by blast
  have 3: "\<exists>T. calls ?v = calls w @ T \<and>
        (\<forall>pre c post. T = pre @ c # post \<and> is_users_write (fst c) \<longrightarrow> (LedgerInsert ?r, True) \<in> set pre)"
    using si(1) write_after_insert_idx [OF si(2)]
    by (intro exI [of _ T']) blast
  have 4: "points_ledger ?v \<noteq> points_ledger w @ [?r] \<longrightarrow>
    points_ledger ?v = points_ledger w \<and> users ?v = users w"
    using si(3) by blast
  from 1 2 3 4 show ?thesis by (intro conjI)
qed

theorem C9_ledger_before_credit_witness:
  "calls (snd (awardPoints (Some ''0xabc'') 125 bet_volume example_md empty_world)) =
     [(UsersSelect ''0xabc'', False), (UsersInsert ''0xabc'' 0, True),
      (LedgerInsert (ledger_entry ''0xabc'' 125 bet_volume example_md), True),
      (UsersSelect ''0xabc'', True)] @ (UsersUpdate ''0xabc'' 125, True) # [] \<and>
   is_update (fst (UsersUpdate ''0xabc'' 125, True)) \<and>
   (LedgerInsert (ledger_entry (toLowerCase ''0xabc'') 125 bet_volume example_md), True) \<in>
     set [(UsersSelect ''0xabc'', False), (UsersInsert ''0xabc'' 0, True),
          (LedgerInsert (ledger_entry ''0xabc'' 125 bet_volume example_md), True),
          (UsersSelect ''0xabc'', True)] \<and>
   points_ledger (snd (awardPoints (Some ''0xabc'') 125 bet_volume example_md failing_ledger_world)) \<noteq>
     points_ledger failing_ledger_world @ [ledger_entry (toLowerCase ''0xabc'') 125 bet_volume example_md] \<and>
   total_of (snd (awardPoints (Some ''0xabc'') 125 bet_volume example_md failing_ledger_world)) ''0xabc'' =
     total_of failing_ledger_world ''0xabc''"
proof -
  let ?pre = "[(UsersSelect ''0xabc'', False), (UsersInsert ''0xabc'' 0, True),
      (LedgerInsert (ledger_entry ''0xabc'' 125 bet_volume example_md), True),
      (UsersSelect ''0xabc'', True)]"
  let ?c = "(UsersUpdate ''0xabc'' 125, True)"
  let ?r = "ledger_entry (toLowerCase ''0xabc'') 125 bet_volume example_md"
  let ?w = "snd (awardPoints (Some ''0xabc'') 125 bet_volume example_md empty_world)"
  let ?v = "snd (awardPoints (Some ''0xabc'') 125 bet_volume example_md failing_ledger_world)"
  have c: "calls ?w = ?pre @ ?c # []"
    by code_simp
  have u: "is_update (fst ?c)"
    by (simp add: is_update_def)
  have e: "calls empty_world = []"
    by (simp add: empty_world_def)
  have l: "points_ledger ?v \<noteq> points_ledger failing_ledger_world @ [?r]"
    by code_simp
  from C9_ledger_before_credit [of "''0xabc''" 125 bet_volume example_md empty_world]
  obtain T where T: "calls ?w = calls empty_world @ T"
    "\<forall>pre c post. T = pre @ c # post \<and> is_update (fst c) \<longrightarrow> (LedgerInsert ?r, True) \<in> set pre"
    by blast
  from T(1) c e have "T = ?pre @ ?c # []" by simp
  with T(2) u have 1: "(LedgerInsert ?r, True) \<in> set ?pre" by blast
  from C9_ledger_before_credit [of "''0xabc''" 125 bet_volume example_md failing_ledger_world] l
  have 2: "total_of ?v ''0xabc'' = total_of failing_ledger_world ''0xabc''"
    by blast
  from c u 1 l 2 show ?thesis by blast
qed

section \<open>Order of processing in a tick\<close>

lemma grows_by_refl: "grows_by P w w"
  by (simp add: grows_by_def)

lemma grows_by_trans: "grows_by P w w1 \<Longrightarrow> grows_by P w1 w2 \<Longrightarrow> grows_by P w w2"
  unfolding grows_by_def
  by (elim exE conjE, rule_tac x = "T @ Ta" in exI) auto

lemma awardPoints_grows:
  assumes "\<And>a. P (UsersSelect a)" and "\<And>a t. P (UsersInsert a t)" and "\<And>a t. P (UsersUpdate a t)"
    and "\<And>r. source r = s \<Longrightarrow> P (LedgerInsert r)"
  shows "grows_by P w (snd (awardPoints wallet p s md w))"
proof (cases wallet)
  case None
  then show ?thesis
    by (simp add: awardPoints_def awardPoints_body_def try_catch_def grows_by_refl)
next
  case (Some wl)
  let ?r = "ledger_entry (toLowerCase wl) p s md"
  from awardPoints_shape [of wl p s md w]
  obtain Te T where sh: "calls (snd (awardPoints (Some wl) p s md w)) = calls w @ Te @ T"
    "\<forall>c \<in> set Te. is_users_call (fst c)" "award_calls (toLowerCase wl) ?r T"
    by blast
  have r: "P (LedgerInsert ?r)"
    by (rule assms(4)) (simp add: ledger_entry_def)
  have "P (fst c)" if "c \<in> set Te" for c
    using sh(2) that assms(1,2) by (cases "fst c") (auto simp: is_users_call_def)
  moreover have "P (fst c)" if "c \<in> set T" for c
    using sh(3) that assms(1,3) r by (auto simp: award_calls_def)
  ultimately show ?thesis
    unfolding grows_by_def Some using sh(1) by (intro exI [of _ "Te @ T"]) auto
qed

lemma handleBetPlaced_grows: "grows_by bet_phase_call w (snd (handleBetPlaced l w))"
proof -
  have "grows_by bet_phase_call w (snd (awardPoints wallet p bet_volume md w))" for wallet p md
    by (rule awardPoints_grows) (simp_all add: bet_phase_call_def)
  then show ?thesis
    by (simp add: handleBetPlaced_def handleBetPlaced_body_def try_catch_def Let_def grows_by_refl
        split: option.splits)
qed

lemma handleWinningsClaimed_grows: "grows_by win_phase_call w (snd (handleWinningsClaimed l w))"
proof -
  have aw: "grows_by win_phase_call w1 (snd (awardPoints wallet p win_bonus md w1))" for wallet p md w1
    by (rule awardPoints_grows) (simp_all add: win_phase_call_def)
  have sel: "grows_by win_phase_call w (snd (ledger_select_latest a m w))" for a m
    using ledger_select_latest_any(3) [where a = a and m = m and w = w]
    by (auto simp: grows_by_def win_phase_call_def)
  have 1: "grows_by win_phase_call w w1" if "ledger_select_latest a m w = (x, w1)" for a m x w1
    using sel [of a m] that by simp
  have 2: "grows_by win_phase_call w (snd (awardPoints wallet p win_bonus md w1))"
    if "ledger_select_latest a m w = (x, w1)" for a m x w1 wallet p md
    using grows_by_trans [OF 1 [OF that] aw] .
  show ?thesis
    using 1 2
    by (auto simp: handleWinningsClaimed_def handleWinningsClaimed_body_def try_catch_def Let_def
        grows_by_refl split: option.splits prod.splits)
qed

lemma foldl_grows:
  assumes "\<And>l w. grows_by P w (snd (h l w))"
  shows "grows_by P w (foldl (\<lambda>w l. snd (h l w)) w ls)"
proof (induction ls arbitrary: w)
  case Nil
  show ?case by (simp add: grows_by_refl)
next
  case (Cons l ls)
  from grows_by_trans [OF assms [of w l] Cons [of "snd (h l w)"]] show ?case by simp
qed

text \<open>
  Claim C7. A tick whose head is not beyond the cursor changes nothing. Otherwise, when both
  queries for the window \<open>[cursor + 1, head]\<close> return, the tick leaves the store that results
  from handling the \<open>BetPlaced\<close> logs one after another, in order, and then the
  \<open>WinningsClaimed\<close> logs one after another, each on the store the previous one left; in the
  record of calls, the calls of all \<open>BetPlaced\<close> logs come first, and the calls after them
  contain no insert of a \<open>bet_volume\<close> row. One tick is one sequential run: overlapping
  callbacks of \<^verbatim>\<open>setInterval\<close> are not in this statement.
\<close>

theorem C7_tick_order:
  "(getBlockNumber node = Inr to \<and> to \<le> lastProcessedBlock s \<longrightarrow> tick node s = s) \<and>
   (getBlockNumber node = Inr to \<and> lastProcessedBlock s < to \<and>
    getLogs_BetPlaced node (lastProcessedBlock s + 1) to = Inr betLogs \<and>
    getLogs_WinningsClaimed node (lastProcessedBlock s + 1) to = Inr winLogs \<longrightarrow>
      tick node s =
        \<lparr>lastProcessedBlock = to,
         db = run_events (map BetPlaced betLogs @ map WinningsClaimed winLogs) (db s)\<rparr> \<and>
      (\<exists>Tb Tw. calls (run_events (map BetPlaced betLogs) (db s)) = calls (db s) @ Tb \<and>
               calls (db (tick node s)) = calls (db s) @ Tb @ Tw \<and>
               (\<forall>c \<in> set Tb. bet_phase_call (fst c)) \<and>
               (\<forall>c \<in> set Tw. win_phase_call (fst c))))"
proof (intro conjI impI)
  assume "getBlockNumber node = Inr to \<and> to \<le> lastProcessedBlock s"
  then show "tick node s = s"
    by (simp add: tick_def tick_with_def)
next
  assume h: "getBlockNumber node = Inr to \<and> lastProcessedBlock s < to \<and>
    getLogs_BetPlaced node (lastProcessedBlock s + 1) to = Inr betLogs \<and>
    getLogs_WinningsClaimed node (lastProcessedBlock s + 1) to = Inr winLogs"
  let ?wb = "foldl (\<lambda>w l. snd (handleBetPlaced l w)) (db s) betLogs"
  let ?ww = "foldl (\<lambda>w l. snd (handleWinningsClaimed l w)) ?wb winLogs"
  from h show t: "tick node s =
        \<lparr>lastProcessedBlock = to,
         db = run_events (map BetPlaced betLogs @ map WinningsClaimed winLogs) (db s)\<rparr>"
    by (simp add: tick_def tick_with_def run_events_window
        for_each_no_throw [of handleBetPlaced, OF handlers_no_throw(1)]
        for_each_no_throw [of handleWinningsClaimed, OF handlers_no_throw(2)])
  from foldl_grows [of bet_phase_call handleBetPlaced "db s" betLogs, OF handleBetPlaced_grows]
  obtain Tb where b: "calls ?wb = calls (db s) @ Tb" "\<forall>c \<in> set Tb. bet_phase_call (fst c)"
    unfolding grows_by_def by blast
  from foldl_grows [of win_phase_call handleWinningsClaimed ?wb winLogs, OF handleWinningsClaimed_grows]
  obtain Tw where w: "calls ?ww = calls ?wb @ Tw" "\<forall>c \<in> set Tw. win_phase_call (fst c)"
    unfolding grows_by_def by blast
  have "calls (run_events (map BetPlaced betLogs) (db s)) = calls (db s) @ Tb"
    using b(1) run_events_window [of betLogs "[]" "db s"] by simp
  moreover have "calls (db (tick node s)) = calls (db s) @ Tb @ Tw"
    by (simp add: t run_events_window w(1) b(1))
  ultimately show "\<exists>Tb Tw. calls (run_events (map BetPlaced betLogs) (db s)) = calls (db s) @ Tb \<and>
               calls (db (tick node s)) = calls (db s) @ Tb @ Tw \<and>
               (\<forall>c \<in> set Tb. bet_phase_call (fst c)) \<and>
               (\<forall>c \<in> set Tw. win_phase_call (fst c))"
    using b(2) w(2) by blast
qed

theorem C7_tick_order_witness:
  "getBlockNumber example_node = Inr 7 \<and> lastProcessedBlock example_listener < 7 \<and>
   getLogs_BetPlaced example_node (lastProcessedBlock example_listener + 1) 7 = Inr [example_bet] \<and>
   getLogs_WinningsClaimed example_node (lastProcessedBlock example_listener + 1) 7 = Inr [example_win] \<and>
   tick example_node example_listener =
     \<lparr>lastProcessedBlock = 7,
      db = run_events (map BetPlaced [example_bet] @ map WinningsClaimed [example_win]) (db example_listener)\<rparr> \<and>
   7 \<le> lastProcessedBlock (example_listener\<lparr>lastProcessedBlock := 7\<rparr>) \<and>
   tick example_node (example_listener\<lparr>lastProcessedBlock := 7\<rparr>) = example_listener\<lparr>lastProcessedBlock := 7\<rparr>"
proof -
  have h: "getBlockNumber example_node = Inr 7 \<and> lastProcessedBlock example_listener < 7 \<and>
   getLogs_BetPlaced example_node (lastProcessedBlock example_listener + 1) 7 = Inr [example_bet] \<and>
   getLogs_WinningsClaimed example_node (lastProcessedBlock example_listener + 1) 7 = Inr [example_win]"
    by (simp add: example_node_def example_listener_def)
  have n: "getBlockNumber example_node = Inr 7 \<and>
    7 \<le> lastProcessedBlock (example_listener\<lparr>lastProcessedBlock := 7\<rparr>)"
    by (simp add: example_node_def)
  from h C7_tick_order [of example_node 7 example_listener "[example_bet]" "[example_win]"]
  have 1: "tick example_node example_listener =
     \<lparr>lastProcessedBlock = 7,
      db = run_events (map BetPlaced [example_bet] @ map WinningsClaimed [example_win]) (db example_listener)\<rparr>"
    by blast
  from n C7_tick_order [of example_node 7 "example_listener\<lparr>lastProcessedBlock := 7\<rparr>" "[]" "[]"]
  have 2: "tick example_node (example_listener\<lparr>lastProcessedBlock := 7\<rparr>) =
    example_listener\<lparr>lastProcessedBlock := 7\<rparr>"
    by blast
  from h n 1 2 show ?thesis by blast
qed

end
